(* ===== verification/Blinds_Prelude.thy ===== *)
theory Blinds_Prelude
  imports Main "HOL-Library.Word"
begin

text \<open>
  Shared vocabulary of the blinds development: the machine types of the ESP32
  firmware (bytes, 32-bit C \<open>int\<close>, the 32-bit \<open>unsigned long\<close> clock, the
  4-bit coil pattern), the range of a C \<open>int\<close>, and the generic lemmas on
  words and on stepping towards a target that the component theories share.
\<close>

unbundle bit_operations_syntax

named_theorems motor_simps \<open>equations of the stepper model used by the component proofs\<close>

type_synonym byte = "8 word"
type_synonym clock_t = "32 word"
type_synonym coil_pattern = "4 word"

subsection \<open>The range of a C \<open>int\<close>\<close>

definition int32_range :: "int \<Rightarrow> bool" where
  "int32_range x \<longleftrightarrow> - (2 ^ 31) \<le> x \<and> x < 2 ^ 31"

lemma int32_range_sint [simp, intro]: "int32_range (sint (w :: 32 word))"
  using sint_ge [of w] sint_lt [of w] by (simp add: int32_range_def)

lemma int32_range_between:
  "int32_range a \<Longrightarrow> int32_range b \<Longrightarrow> min a b \<le> x \<Longrightarrow> x \<le> max a b \<Longrightarrow> int32_range x"
  by (auto simp: int32_range_def)

subsection \<open>Words\<close>

lemma byte_no_high_bit [simp]: "8 \<le> n \<Longrightarrow> \<not> bit (b :: byte) n"
  using bit_imp_le_length [of b n] by auto

lemma uint_shift_or_byte:
  assumes "uint (x :: 32 word) < 2 ^ 24"
  shows "uint (push_bit 8 x OR ucast (b :: byte)) = 256 * uint x + uint b"
proof -
  have d: "push_bit 8 x OR ucast b = push_bit 8 x + ucast b"
    by (rule disjunctive_add [symmetric]) (auto simp: bit_simps dest: bit_imp_le_length)
  have "uint (push_bit 8 x) = 256 * uint x"
  proof -
    have "uint (push_bit 8 x) = take_bit 32 (push_bit 8 (uint x))"
      by (simp only: unsigned_push_bit_eq len_of_numeral_defs) simp
    also have "\<dots> = 256 * uint x"
      using assms by (simp add: push_bit_eq_mult take_bit_int_eq_self)
    finally show ?thesis .
  qed
  moreover have "uint (ucast b :: 32 word) = uint b"
    by (simp add: uint_up_ucast is_up)
  moreover have "256 * uint x + uint b < 2 ^ 32"
    using assms uint_lt2p [of b] by simp
  ultimately show ?thesis unfolding d
    by (simp add: uint_add_lem [THEN iffD1])
qed

lemma sint32_from_uint:
  "sint (w :: 32 word) = (if uint w < 2 ^ 31 then uint w else uint w - 2 ^ 32)"
proof -
  have u: "0 \<le> uint w" "uint w < 2 ^ 32"
    using uint_lt2p [of w] by simp_all
  have "sint w = take_bit 32 (uint w + 2 ^ 31) - 2 ^ 31"
    by (simp add: sint_uint signed_take_bit_eq_take_bit_shift)
  also have "\<dots> = (if uint w < 2 ^ 31 then uint w else uint w - 2 ^ 32)"
  proof (cases "uint w < 2 ^ 31")
    case True
    then show ?thesis using u by (simp add: take_bit_eq_mod)
  next
    case False
    then have "(uint w + 2 ^ 31) mod 2 ^ 32 = uint w + 2 ^ 31 - 2 ^ 32"
      using u by (simp add: mod_pos_geq)
    then show ?thesis using False by (simp add: take_bit_eq_mod)
  qed
  finally show ?thesis .
qed

text \<open>
  Elapsed time on a wrapping 32-bit clock: the unsigned difference of two clock
  readings is the real elapsed time whenever less than \<open>2 ^ 32\<close> ticks passed.
\<close>

lemma unat_clock_diff:
  assumes "a \<le> b" and "b - a < 2 ^ 32"
  shows "unat (word_of_nat b - word_of_nat a :: clock_t) = b - a"
proof -
  have "(word_of_nat b - word_of_nat a :: clock_t) = word_of_nat (b - a)"
    using assms(1) by (simp add: of_nat_diff)
  then show ?thesis
    using assms(2) by (simp add: unat_of_nat)
qed

subsection \<open>Stepping towards a target\<close>

lemma step_towards_dist:
  fixes c t :: int
  assumes "c \<noteq> t"
  shows "\<bar>t - (c + (if c < t then 1 else - 1))\<bar> = \<bar>t - c\<bar> - 1"
  using assms by auto

lemma step_towards_between:
  fixes c t :: int
  assumes "c \<noteq> t"
  shows "min c t \<le> c + (if c < t then 1 else - 1) \<and> c + (if c < t then 1 else - 1) \<le> max c t"
  using assms by auto

lemma sgn_step_dir:
  fixes c t :: int
  assumes "c \<noteq> t"
  shows "sgn (t - c) = (if c < t then 1 else - 1)"
  using assms by (simp add: sgn_if)

end
