(* ===== verification/Coil_Sequencer.thy ===== *)
theory Coil_Sequencer
  imports Blinds_Prelude
begin

text \<open>
  The coil sequencer of the \<open>Simple28BYJ48\<close> stepper library (the header
  \<open>Simple28BYJ48.h\<close> included by \<open>src/esp32-simple-blinds.cpp\<close>, not part of
  the repository's sources, so modelled from the specification, section 4.1):
  a fixed table from the phase index to the 4-bit energisation pattern of the
  coil lines IN1..IN4 (bit \<open>k\<close> of the pattern drives line IN(k+1)).
  Two tables are given, the eight-phase half-step drive used for the 28BYJ-48
  and the four-phase two-coil full-step drive; every lemma about the motor is
  stated for any well-formed table.
\<close>

definition halfstep_seq :: "coil_pattern list" where
  "halfstep_seq = [1, 3, 2, 6, 4, 12, 8, 9]"

definition fullstep_seq :: "coil_pattern list" where
  "fullstep_seq = [3, 6, 12, 9]"

definition coil_pattern_of :: "coil_pattern list \<Rightarrow> nat \<Rightarrow> coil_pattern" where
  "coil_pattern_of tbl i = tbl ! i"

definition coils_on :: "coil_pattern \<Rightarrow> nat list" where
  "coils_on w = filter (bit w) [0..<4]"

definition adjacent_coils :: "nat \<Rightarrow> nat \<Rightarrow> bool" where
  "adjacent_coils i j \<longleftrightarrow> j = (i + 1) mod 4 \<or> i = (j + 1) mod 4"

definition valid_pattern :: "coil_pattern \<Rightarrow> bool" where
  "valid_pattern w =
     (case coils_on w of
        [_] \<Rightarrow> True
      | [i, j] \<Rightarrow> adjacent_coils i j
      | _ \<Rightarrow> False)"

definition wf_coil_seq :: "coil_pattern list \<Rightarrow> bool" where
  "wf_coil_seq tbl \<longleftrightarrow> tbl \<noteq> [] \<and> list_all valid_pattern tbl"

text \<open>Consecutive phases, cyclically, share an energised coil: the rotor is held
  through every phase change.\<close>

definition overlapping_seq :: "coil_pattern list \<Rightarrow> bool" where
  "overlapping_seq tbl \<longleftrightarrow>
     list_all (\<lambda>i. tbl ! i AND tbl ! ((i + 1) mod length tbl) \<noteq> 0) [0..<length tbl]"

lemma wf_coil_seq_nonempty [simp]: "wf_coil_seq tbl \<Longrightarrow> 0 < length tbl"
  by (simp add: wf_coil_seq_def)

lemma wf_coil_seq_valid:
  "wf_coil_seq tbl \<Longrightarrow> i < length tbl \<Longrightarrow> valid_pattern (coil_pattern_of tbl i)"
  by (simp add: wf_coil_seq_def coil_pattern_of_def list_all_length)

lemma wf_halfstep_seq: "wf_coil_seq halfstep_seq"
  by code_simp

lemma wf_fullstep_seq: "wf_coil_seq fullstep_seq"
  by code_simp

lemma overlapping_halfstep_seq: "overlapping_seq halfstep_seq"
  by code_simp

lemma valid_pattern_nonzero: "valid_pattern w \<Longrightarrow> w \<noteq> 0"
  by (auto simp: valid_pattern_def coils_on_def)

end
