(* ===== verification/Stepper_Motor.thy ===== *)
theory Stepper_Motor
  imports Coil_Sequencer
begin

text \<open>
  The non-blocking motor-positioning state machine of the \<open>Simple28BYJ48\<close>
  library (specification, sections 3 and 4.2; the library is not under src/,
  so it is modelled from the specification). The object \<open>stepper\<close> of
  \<open>src/esp32-simple-blinds.cpp\<close> keeps the current and target step position
  (C \<open>int\<close>), the phase index into the coil table, the clock reading of the
  last phase advance and the levels of the four coil pins. Its configuration
  (pins, coil table, minimum step interval) never changes.
  \<open>set_target_pos\<close> overwrites the target; \<open>keep_target_pos\<close> is the
  advance-if-due step called once per iteration of \<open>loop()\<close>.
\<close>

record stepper_cfg =
  in1 :: nat
  in2 :: nat
  in3 :: nat
  in4 :: nat
  coil_seq :: "coil_pattern list"
  step_delay :: clock_t

record stepper =
  current_pos :: int
  target_pos :: int
  step_idx :: nat
  last_step_time :: clock_t
  coil_out :: coil_pattern

text \<open>The library's constructor \<open>Simple28BYJ48(in1, in2, in3, in4)\<close>: the
  four coil pins, the half-step table and the minimum step interval.\<close>

definition simple28byj48 :: "nat \<Rightarrow> nat \<Rightarrow> nat \<Rightarrow> nat \<Rightarrow> clock_t \<Rightarrow> stepper_cfg" where
  "simple28byj48 p1 p2 p3 p4 d =
     \<lparr>in1 = p1, in2 = p2, in3 = p3, in4 = p4, coil_seq = halfstep_seq, step_delay = d\<rparr>"

text \<open>The constructor's initial state: reference pose, phase 0, all coil lines low.\<close>

definition stepper_init :: stepper where
  "stepper_init = \<lparr>current_pos = 0, target_pos = 0, step_idx = 0,
                   last_step_time = 0, coil_out = 0\<rparr>"

definition set_target_pos :: "stepper \<Rightarrow> int \<Rightarrow> stepper" where
  "set_target_pos s pos = s\<lparr>target_pos := pos\<rparr>"

text \<open>The phase index moves one place, wrapping past \<open>N - 1\<close> to 0 forwards
  and past 0 to \<open>N - 1\<close> backwards.\<close>

definition next_step_idx :: "nat \<Rightarrow> nat \<Rightarrow> int \<Rightarrow> nat" where
  "next_step_idx n i d =
     (if 0 < d then (if Suc i = n then 0 else Suc i)
      else (if i = 0 then n - 1 else i - 1))"

definition step_dir :: "stepper \<Rightarrow> int" where
  "step_dir s = (if current_pos s < target_pos s then 1 else - 1)"

definition keep_target_pos :: "stepper_cfg \<Rightarrow> clock_t \<Rightarrow> stepper \<Rightarrow> stepper" where
  "keep_target_pos cfg now s =
     (if current_pos s = target_pos s then s
      else if now - last_step_time s < step_delay cfg then s
      else
        (let d = step_dir s;
             i = next_step_idx (length (coil_seq cfg)) (step_idx s) d
         in s\<lparr>step_idx := i, current_pos := current_pos s + d,
              last_step_time := now, coil_out := coil_pattern_of (coil_seq cfg) i\<rparr>))"

text \<open>Repeated calls at the clock readings \<open>ts\<close>, and the condition that these
  readings are spaced at least one step interval apart (in the wrapping
  unsigned arithmetic the firmware uses).\<close>

fun run_keep :: "stepper_cfg \<Rightarrow> clock_t list \<Rightarrow> stepper \<Rightarrow> stepper" where
  "run_keep cfg [] s = s"
| "run_keep cfg (t # ts) s = run_keep cfg ts (keep_target_pos cfg t s)"

fun spaced :: "clock_t \<Rightarrow> clock_t \<Rightarrow> clock_t list \<Rightarrow> bool" where
  "spaced d prev [] = True"
| "spaced d prev (t # ts) = (d \<le> t - prev \<and> spaced d t ts)"

definition stepper_dist :: "stepper \<Rightarrow> nat" where
  "stepper_dist s = nat \<bar>target_pos s - current_pos s\<bar>"

text \<open>The reference for the phase update: the phase index is the previous one
  plus the direction, modulo the number of phases.\<close>

definition phase_ref :: "nat \<Rightarrow> nat \<Rightarrow> int \<Rightarrow> nat" where
  "phase_ref n i d = nat ((int i + d) mod int n)"

text \<open>The invariant of the motor state: the phase index is in range and tracks
  the position modulo the number of phases (both start at 0), and the coil
  lines are either all low (before the first step) or driven with the pattern
  of the current phase.\<close>

definition motor_inv :: "stepper_cfg \<Rightarrow> stepper \<Rightarrow> bool" where
  "motor_inv cfg s \<longleftrightarrow>
     step_idx s < length (coil_seq cfg) \<and>
     int (step_idx s) = current_pos s mod int (length (coil_seq cfg)) \<and>
     (coil_out s = 0 \<or> coil_out s = coil_pattern_of (coil_seq cfg) (step_idx s))"

subsection \<open>The three branches of \<open>keep_target_pos\<close>\<close>

lemma keep_at_target [motor_simps]:
  "current_pos s = target_pos s \<Longrightarrow> keep_target_pos cfg now s = s"
  by (simp add: keep_target_pos_def)

lemma keep_not_due [motor_simps]:
  "now - last_step_time s < step_delay cfg \<Longrightarrow> keep_target_pos cfg now s = s"
  by (simp add: keep_target_pos_def)

lemma keep_due [motor_simps]:
  assumes "current_pos s \<noteq> target_pos s" and "step_delay cfg \<le> now - last_step_time s"
  shows "keep_target_pos cfg now s =
           s\<lparr>step_idx := next_step_idx (length (coil_seq cfg)) (step_idx s) (step_dir s),
             current_pos := current_pos s + step_dir s, last_step_time := now,
             coil_out := coil_pattern_of (coil_seq cfg)
                           (next_step_idx (length (coil_seq cfg)) (step_idx s) (step_dir s))\<rparr>"
  using assms by (simp add: keep_target_pos_def Let_def not_less)

lemma keep_target_unchanged [simp]: "target_pos (keep_target_pos cfg now s) = target_pos s"
  by (simp add: keep_target_pos_def Let_def)

lemma run_keep_target_unchanged [simp]: "target_pos (run_keep cfg ts s) = target_pos s"
  by (induction ts arbitrary: s) simp_all

lemma run_keep_append: "run_keep cfg (ts @ us) s = run_keep cfg us (run_keep cfg ts s)"
  by (induction ts arbitrary: s) simp_all

lemma run_keep_at_target:
  "current_pos s = target_pos s \<Longrightarrow> run_keep cfg ts s = s"
  by (induction ts) (simp_all add: keep_at_target)

lemma current_keep_due:
  "current_pos s \<noteq> target_pos s \<Longrightarrow> step_delay cfg \<le> now - last_step_time s \<Longrightarrow>
   current_pos (keep_target_pos cfg now s) = current_pos s + step_dir s \<and>
   last_step_time (keep_target_pos cfg now s) = now"
  by (simp add: keep_due)

lemma step_dir_unit: "step_dir s = 1 \<or> step_dir s = - 1"
  by (simp add: step_dir_def)

subsection \<open>The phase update\<close>

lemma next_step_idx_lt:
  "0 < n \<Longrightarrow> i < n \<Longrightarrow> next_step_idx n i d < n"
  by (auto simp: next_step_idx_def)

lemma next_step_idx_mod:
  assumes "0 < n" "i < n" "d = 1 \<or> d = - 1"
  shows "int (next_step_idx n i d) = (int i + d) mod int n"
  using assms(3)
proof
  assume "d = 1"
  then show ?thesis
    using assms(1,2) by (auto simp: next_step_idx_def mod_pos_pos_trivial add.commute)
next
  assume "d = - 1"
  then show ?thesis
    using assms(1,2) by (auto simp: next_step_idx_def of_nat_diff mod_pos_pos_trivial zmod_minus1)
qed

text \<open>One call of \<open>keep_target_pos\<close> moves the phase index by exactly the
  amount it moves the position, modulo the number of phases.\<close>

lemma keep_step_idx:
  assumes "0 < length (coil_seq cfg)" and "step_idx s < length (coil_seq cfg)"
  shows "step_idx (keep_target_pos cfg now s) < length (coil_seq cfg) \<and>
         int (step_idx (keep_target_pos cfg now s)) =
           (int (step_idx s) + (current_pos (keep_target_pos cfg now s) - current_pos s))
             mod int (length (coil_seq cfg))"
proof (cases "current_pos s = target_pos s \<or> now - last_step_time s < step_delay cfg")
  case True
  then show ?thesis
    using assms by (auto simp: keep_at_target keep_not_due mod_pos_pos_trivial)
next
  case False
  then show ?thesis
    using assms next_step_idx_lt next_step_idx_mod [OF assms step_dir_unit]
    by (simp add: keep_due not_less)
qed

lemma keep_coil_out:
  "coil_out (keep_target_pos cfg now s) = coil_out s \<or>
   coil_out (keep_target_pos cfg now s) =
     coil_pattern_of (coil_seq cfg) (step_idx (keep_target_pos cfg now s))"
  by (simp add: keep_target_pos_def Let_def)

lemma keep_current_between:
  "min (current_pos s) (target_pos s) \<le> current_pos (keep_target_pos cfg now s) \<and>
   current_pos (keep_target_pos cfg now s) \<le> max (current_pos s) (target_pos s)"
  by (auto simp: keep_target_pos_def Let_def step_dir_def)

lemma keep_motor_inv:
  assumes "motor_inv cfg s" and "0 < length (coil_seq cfg)"
  shows "motor_inv cfg (keep_target_pos cfg now s)"
proof -
  let ?n = "int (length (coil_seq cfg))"
  let ?s' = "keep_target_pos cfg now s"
  from assms have i: "step_idx s < length (coil_seq cfg)"
    and m: "int (step_idx s) = current_pos s mod ?n"
    by (simp_all add: motor_inv_def)
  from keep_step_idx [OF assms(2) i]
  have lt: "step_idx ?s' < length (coil_seq cfg)"
    and idx: "int (step_idx ?s') = (int (step_idx s) + (current_pos ?s' - current_pos s)) mod ?n"
    by simp_all
  have "int (step_idx ?s') = current_pos ?s' mod ?n"
    using idx m by (simp add: mod_add_left_eq)
  moreover have "coil_out ?s' = 0 \<or> coil_out ?s' = coil_pattern_of (coil_seq cfg) (step_idx ?s')"
  proof (cases "coil_out ?s' = coil_out s")
    case True
    moreover have "step_idx ?s' = step_idx s \<or> coil_out ?s' = coil_pattern_of (coil_seq cfg) (step_idx ?s')"
      by (auto simp: keep_target_pos_def Let_def)
    ultimately show ?thesis using assms(1) by (auto simp: motor_inv_def)
  next
    case False
    then show ?thesis using keep_coil_out by metis
  qed
  ultimately show ?thesis using lt by (simp add: motor_inv_def)
qed

lemma run_keep_current:
  assumes "spaced (step_delay cfg) (last_step_time s) ts"
  shows "current_pos (run_keep cfg ts s) =
           (if stepper_dist s \<le> length ts then target_pos s
            else current_pos s + sgn (target_pos s - current_pos s) * int (length ts))"
  using assms
proof (induction ts arbitrary: s)
  case Nil
  then show ?case by (simp add: stepper_dist_def)
next
  case (Cons t ts)
  show ?case
  proof (cases "current_pos s = target_pos s")
    case True
    then show ?thesis by (simp add: run_keep_at_target keep_at_target stepper_dist_def)
  next
    case False
    let ?s' = "keep_target_pos cfg t s"
    from Cons.prems have due: "step_delay cfg \<le> t - last_step_time s"
      and sp: "spaced (step_delay cfg) t ts"
      by simp_all
    have cur: "current_pos ?s' = current_pos s + step_dir s" and lst: "last_step_time ?s' = t"
      using current_keep_due [OF False due] by simp_all
    have IH: "current_pos (run_keep cfg ts ?s') =
           (if stepper_dist ?s' \<le> length ts then target_pos s
            else current_pos ?s' + sgn (target_pos s - current_pos ?s') * int (length ts))"
      using Cons.IH [of ?s'] sp lst by simp
    have d: "stepper_dist ?s' = stepper_dist s - 1" "0 < stepper_dist s"
      using False by (auto simp: stepper_dist_def cur step_dir_def)
    have sg: "stepper_dist ?s' \<noteq> 0 \<Longrightarrow>
              sgn (target_pos s - current_pos ?s') = sgn (target_pos s - current_pos s)"
      using False by (auto simp: stepper_dist_def cur step_dir_def sgn_if)
    show ?thesis
      using IH d sg False by (auto simp: cur step_dir_def sgn_if)
  qed
qed

lemma run_keep_motor_inv:
  "motor_inv cfg s \<Longrightarrow> 0 < length (coil_seq cfg) \<Longrightarrow> motor_inv cfg (run_keep cfg ts s)"
  by (induction ts arbitrary: s) (simp_all add: keep_motor_inv)

lemma set_target_motor_inv [simp]: "motor_inv cfg (set_target_pos s pos) = motor_inv cfg s"
  by (simp add: motor_inv_def set_target_pos_def)

lemma stepper_init_motor_inv:
  "0 < length (coil_seq cfg) \<Longrightarrow> motor_inv cfg stepper_init"
  by (simp add: motor_inv_def stepper_init_def)

subsection \<open>Properties of the positioning state machine\<close>

text \<open>Convergence without overshoot: after \<open>k\<close> calls of \<open>keep_target_pos\<close> at
  clock readings spaced at least one step interval apart, the distance to the
  target has dropped by exactly \<open>k\<close> (down to 0, where it stays), and the
  position has stayed between its start and the target.\<close>

lemma keep_target_pos_converges:
  assumes "spaced (step_delay cfg) (last_step_time s) ts"
  shows "stepper_dist (run_keep cfg ts s) = stepper_dist s - length ts \<and>
         min (current_pos s) (target_pos s) \<le> current_pos (run_keep cfg ts s) \<and>
         current_pos (run_keep cfg ts s) \<le> max (current_pos s) (target_pos s)"
  using run_keep_current [OF assms]
  by (auto simp: stepper_dist_def sgn_if nat_diff_distrib)


end
