(* ===== verification/Frame_Decoder.thy ===== *)
theory Frame_Decoder
  imports Blinds_Prelude
begin

text \<open>
  The command decoder \<open>bin_to_int_le\<close> of \<open>src/esp32-simple-blinds.cpp\<close>
  (lines 20-24). The C code promotes each \<open>uint8_t\<close> to a 32-bit \<open>int\<close>,
  shifts it and ORs the four values; the result is the 32-bit pattern read in
  two's complement. The model computes the same pattern as a \<open>32 word\<close> and
  reads it with \<open>sint\<close>. The argument is the memory the payload pointer
  points to: the callback never looks at the frame length, so the bytes it
  reads may lie past the received frame (\<open>payload_buffer\<close>).
  The specification's contract (section 4.3) is \<open>decode_frame\<close>: exactly four
  bytes, most significant first, two's complement; anything else rejected.
  \<open>encode_int\<close> is the sending client's encoding of a target position.
\<close>

unbundle bit_operations_syntax

definition bin_to_int_le :: "(nat \<Rightarrow> byte) \<Rightarrow> int" where
  "bin_to_int_le bin =
     sint ((push_bit 24 (ucast (bin 0)) OR push_bit 16 (ucast (bin 1)) OR
            push_bit 8 (ucast (bin 2)) OR ucast (bin 3)) :: 32 word)"

text \<open>The receive buffer as seen through the payload pointer: the frame's
  bytes, then whatever memory follows it.\<close>

definition payload_buffer :: "byte list \<Rightarrow> (nat \<Rightarrow> byte) \<Rightarrow> nat \<Rightarrow> byte" where
  "payload_buffer frame beyond i = (if i < length frame then frame ! i else beyond i)"

definition be_value :: "byte list \<Rightarrow> int" where
  "be_value bs = foldl (\<lambda>acc b. 256 * acc + uint b) 0 bs"

definition signed32 :: "int \<Rightarrow> int" where
  "signed32 u = (if u < 2 ^ 31 then u else u - 2 ^ 32)"

definition decode_frame :: "byte list \<Rightarrow> int option" where
  "decode_frame bs = (if length bs = 4 then Some (signed32 (be_value bs)) else None)"

text \<open>The little-endian reading the decoder's name and comment promise: the
  first byte is the least significant one.\<close>

definition le_reading :: "(nat \<Rightarrow> byte) \<Rightarrow> int" where
  "le_reading bin =
     signed32 (uint (bin 0) + 2 ^ 8 * uint (bin 1) + 2 ^ 16 * uint (bin 2) + 2 ^ 24 * uint (bin 3))"

definition encode_int :: "int \<Rightarrow> byte list" where
  "encode_int x =
     (let w = (word_of_int x :: 32 word)
      in [ucast (drop_bit 24 w), ucast (drop_bit 16 w), ucast (drop_bit 8 w), ucast w])"

subsection \<open>The decoder as arithmetic\<close>

lemma bin_to_int_le_horner:
  "(push_bit 24 (ucast b0) OR push_bit 16 (ucast b1) OR push_bit 8 (ucast b2) OR ucast b3 :: 32 word)
   = push_bit 8 (push_bit 8 (push_bit 8 (ucast (b0 :: byte)) OR ucast (b1 :: byte))
                 OR ucast (b2 :: byte)) OR ucast (b3 :: byte)"
  by (rule bit_word_eqI) (auto simp: bit_simps)

lemma bin_to_int_le_arith:
  "bin_to_int_le bin =
     signed32 (2 ^ 24 * uint (bin 0) + 2 ^ 16 * uint (bin 1) + 2 ^ 8 * uint (bin 2) + uint (bin 3))"
proof -
  let ?b0 = "bin 0" and ?b1 = "bin 1" and ?b2 = "bin 2" and ?b3 = "bin 3"
  have lt: "uint (b :: byte) < 256" for b
    using uint_lt2p [of b] by simp
  have u0: "uint (ucast ?b0 :: 32 word) = uint ?b0"
    by (simp add: uint_up_ucast is_up)
  let ?x1 = "push_bit 8 (ucast ?b0) OR ucast ?b1 :: 32 word"
  let ?x2 = "push_bit 8 ?x1 OR ucast ?b2 :: 32 word"
  have u1: "uint ?x1 = 256 * uint ?b0 + uint ?b1"
    using uint_shift_or_byte [of "ucast ?b0" ?b1] u0 lt [of ?b0] by simp
  have u2: "uint ?x2 = 256 * uint ?x1 + uint ?b2"
    by (rule uint_shift_or_byte) (use u1 lt [of ?b0] lt [of ?b1] in simp)
  have u3: "uint (push_bit 8 ?x2 OR ucast ?b3 :: 32 word) = 256 * uint ?x2 + uint ?b3"
    by (rule uint_shift_or_byte) (use u2 u1 lt [of ?b0] lt [of ?b1] lt [of ?b2] in simp)
  show ?thesis
    unfolding bin_to_int_le_def bin_to_int_le_horner sint32_from_uint signed32_def
    by (simp only: u3 u2 u1) (simp add: algebra_simps)
qed

lemma be_value_four:
  "be_value [b0, b1, b2, b3] =
     2 ^ 24 * uint b0 + 2 ^ 16 * uint b1 + 2 ^ 8 * uint b2 + uint b3"
  by (simp add: be_value_def algebra_simps)

lemma length_four_cases:
  "length bs = 4 \<Longrightarrow> \<exists>b0 b1 b2 b3. bs = [b0, b1, b2, b3]"
  by (auto simp: numeral_eq_Suc length_Suc_conv)

lemma decode_frame_bin_to_int_le:
  "length bs = 4 \<Longrightarrow> decode_frame bs = Some (bin_to_int_le (payload_buffer bs beyond))"
  by (auto simp: decode_frame_def bin_to_int_le_arith payload_buffer_def be_value_four
           dest!: length_four_cases)

lemma signed32_inj:
  "0 \<le> a \<Longrightarrow> a < 2 ^ 32 \<Longrightarrow> 0 \<le> b \<Longrightarrow> b < 2 ^ 32 \<Longrightarrow> signed32 a = signed32 b \<Longrightarrow> a = b"
  by (auto simp: signed32_def split: if_splits)

lemma encode_int_word:
  "(push_bit 24 (ucast (ucast (drop_bit 24 w) :: byte)) OR push_bit 16 (ucast (ucast (drop_bit 16 w) :: byte)) OR
    push_bit 8 (ucast (ucast (drop_bit 8 w) :: byte)) OR ucast (ucast w :: byte)) = (w :: 32 word)"
proof (rule bit_word_eqI)
  fix n :: nat
  assume "n < LENGTH(32)"
  then consider "n < 8" | "8 \<le> n" "n < 16" | "16 \<le> n" "n < 24" | "24 \<le> n" "n < 32"
    by fastforce
  then show "bit (push_bit 24 (ucast (ucast (drop_bit 24 w) :: byte)) OR push_bit 16 (ucast (ucast (drop_bit 16 w) :: byte)) OR
    push_bit 8 (ucast (ucast (drop_bit 8 w) :: byte)) OR ucast (ucast w :: byte) :: 32 word) n = bit w n"
    by cases (auto simp: bit_simps)
qed

lemma bytes_of_word:
  fixes b0 b1 b2 b3 :: byte
  defines "w \<equiv> push_bit 24 (ucast b0) OR push_bit 16 (ucast b1) OR push_bit 8 (ucast b2) OR ucast b3 :: 32 word"
  shows "(ucast (drop_bit 24 w) :: byte) = b0 \<and> (ucast (drop_bit 16 w) :: byte) = b1 \<and>
         (ucast (drop_bit 8 w) :: byte) = b2 \<and> (ucast w :: byte) = b3"
  unfolding w_def by (intro conjI; rule bit_word_eqI; auto simp: bit_simps)

text \<open>The decoder tells apart every two contents of the four bytes it reads.\<close>

lemma bin_to_int_le_eq_iff:
  "bin_to_int_le bin = bin_to_int_le bin' \<longleftrightarrow>
     bin 0 = bin' 0 \<and> bin 1 = bin' 1 \<and> bin 2 = bin' 2 \<and> bin 3 = bin' 3"
proof
  let ?w = "\<lambda>bin. push_bit 24 (ucast (bin 0)) OR push_bit 16 (ucast (bin 1)) OR
                  push_bit 8 (ucast (bin 2)) OR ucast (bin 3) :: 32 word"
  assume "bin_to_int_le bin = bin_to_int_le bin'"
  then have "(word_of_int (sint (?w bin)) :: 32 word) = word_of_int (sint (?w bin'))"
    by (simp add: bin_to_int_le_def)
  then have "?w bin = ?w bin'"
    by simp
  then show "bin 0 = bin' 0 \<and> bin 1 = bin' 1 \<and> bin 2 = bin' 2 \<and> bin 3 = bin' 3"
    using bytes_of_word [of "bin 0" "bin 1" "bin 2" "bin 3"] bytes_of_word [of "bin' 0" "bin' 1" "bin' 2" "bin' 3"]
    by metis
qed (simp add: bin_to_int_le_def)

lemma le_reading_reversed: "le_reading bin = bin_to_int_le (\<lambda>i. bin (3 - i))"
  by (simp add: le_reading_def bin_to_int_le_arith algebra_simps)

lemma bin_to_int_le_reads_beyond:
  assumes "length bs < 4"
  shows "bin_to_int_le (payload_buffer bs (\<lambda>_. 0)) \<noteq> bin_to_int_le (payload_buffer bs ((\<lambda>_. 0)(3 := 1)))"
proof
  let ?p = "payload_buffer bs (\<lambda>_. 0)" and ?q = "payload_buffer bs ((\<lambda>_. 0)(3 := 1))"
  let ?base = "2 ^ 24 * uint (?p 0) + 2 ^ 16 * uint (?p 1) + 2 ^ 8 * uint (?p 2)"
  have same: "?q i = ?p i" if "i < 3" for i
    using that by (simp add: payload_buffer_def)
  have p3: "?p 3 = 0" and q3: "?q 3 = 1"
    using assms by (simp_all add: payload_buffer_def)
  have lt: "uint (b :: byte) < 256" for b
    using uint_lt2p [of b] by simp
  have bnd: "0 \<le> ?base" "?base + 1 < 2 ^ 32"
    using lt [of "?p 0"] lt [of "?p 1"] lt [of "?p 2"] by simp_all
  assume "bin_to_int_le ?p = bin_to_int_le ?q"
  then have eq: "signed32 (?base + 0) = signed32 (?base + 1)"
    by (simp add: bin_to_int_le_arith same p3 q3)
  have "?base + 0 = ?base + 1"
    using bnd by (intro signed32_inj [OF _ _ _ _ eq]) simp_all
  then show False by simp
qed

subsection \<open>Properties of the decoder\<close>

text \<open>C9. Round trip from the client: every C \<open>int\<close> target position the
  client encodes as four bytes, most significant first, is decoded by
  \<open>bin_to_int_le\<close> to the same value, whatever memory follows the frame.\<close>

theorem encode_int_roundtrip:
  assumes "int32_range x"
  shows "bin_to_int_le (payload_buffer (encode_int x) beyond) = x"
proof -
  have "sint (word_of_int x :: 32 word) = x"
    using assms by (simp add: sint_sbintrunc' signed_take_bit_int_eq_self int32_range_def)
  then show ?thesis
    by (simp add: bin_to_int_le_def payload_buffer_def encode_int_def Let_def encode_int_word)
qed


text \<open>C10. Round trip from the wire: re-encoding the value that
  \<open>bin_to_int_le\<close> decodes from a four-byte frame gives back the frame, so
  distinct frames decode to distinct targets.\<close>

theorem decode_encode_roundtrip:
  assumes "length bs = 4"
  shows "encode_int (bin_to_int_le (payload_buffer bs beyond)) = bs"
proof -
  obtain b0 b1 b2 b3 where bs: "bs = [b0, b1, b2, b3]"
    using length_four_cases [OF assms] by blast
  let ?w = "push_bit 24 (ucast b0) OR push_bit 16 (ucast b1) OR push_bit 8 (ucast b2) OR ucast b3 :: 32 word"
  have "bin_to_int_le (payload_buffer bs beyond) = sint ?w"
    by (simp add: bs bin_to_int_le_def payload_buffer_def)
  moreover have "(word_of_int (sint ?w) :: 32 word) = ?w"
    by simp
  ultimately show ?thesis
    using bytes_of_word [of b0 b1 b2 b3] by (simp only: encode_int_def Let_def bs)
qed

text \<open>C11. Byte order: \<open>bin_to_int_le\<close> is not the little-endian reading
  its name and comment announce. The two agree on a frame exactly when the
  frame reads the same both ways (first byte equal to the fourth, second to
  the third); on every other frame the first byte is taken as the most
  significant one.\<close>

theorem bin_to_int_le_byte_order:
  "bin_to_int_le bin = le_reading bin \<longleftrightarrow> bin 0 = bin 3 \<and> bin 1 = bin 2"
  by (auto simp: le_reading_reversed bin_to_int_le_eq_iff)

theorem encode_int_roundtrip_witness:
  "int32_range (- 5) \<and> bin_to_int_le (payload_buffer (encode_int (- 5)) (\<lambda>_. 0)) = - 5"
proof -
  have r: "int32_range (- 5)" by (simp add: int32_range_def)
  show ?thesis using encode_int_roundtrip [OF r] r by blast
qed

theorem decode_encode_roundtrip_witness:
  "length [0, 0, 1, 44 :: byte] = 4 \<and>
   encode_int (bin_to_int_le (payload_buffer [0, 0, 1, 44] (\<lambda>_. 0))) = [0, 0, 1, 44]"
  using decode_encode_roundtrip [of "[0, 0, 1, 44]" "\<lambda>_. 0"] by simp

end
