(* ===== verification/Websocket_Handler.thy ===== *)
theory Websocket_Handler
  imports Stepper_Motor Frame_Decoder
begin

text \<open>
  The WebSocket event callback \<open>websocket_event\<close> of
  \<open>src/esp32-simple-blinds.cpp\<close> (lines 26-45). The WebSocket server library
  calls it with the client number, the event type, a pointer to the payload
  and its length. A binary frame (\<open>WStype_BIN\<close>) sets the stepper's target to
  \<open>bin_to_int_le(payload)\<close>; every other event type falls through to
  \<open>break\<close>. The length argument is never consulted. The event type is the
  library's enumeration \<open>WStype_t\<close>, with its constructors.
\<close>

datatype WStype_t =
    WStype_ERROR
  | WStype_DISCONNECTED
  | WStype_CONNECTED
  | WStype_TEXT
  | WStype_BIN
  | WStype_FRAGMENT_TEXT_START
  | WStype_FRAGMENT_BIN_START
  | WStype_FRAGMENT
  | WStype_FRAGMENT_FIN
  | WStype_PING
  | WStype_PONG

definition websocket_event ::
  "stepper \<Rightarrow> nat \<Rightarrow> WStype_t \<Rightarrow> (nat \<Rightarrow> byte) \<Rightarrow> nat \<Rightarrow> stepper" where
  "websocket_event s num type payload len =
     (case type of
        WStype_BIN \<Rightarrow> set_target_pos s (bin_to_int_le payload)
      | WStype_TEXT \<Rightarrow> s
      | WStype_ERROR \<Rightarrow> s
      | WStype_FRAGMENT_TEXT_START \<Rightarrow> s
      | WStype_FRAGMENT_BIN_START \<Rightarrow> s
      | WStype_FRAGMENT \<Rightarrow> s
      | WStype_FRAGMENT_FIN \<Rightarrow> s
      | WStype_DISCONNECTED \<Rightarrow> s
      | WStype_CONNECTED \<Rightarrow> s
      | _ \<Rightarrow> s)"

lemma websocket_event_bin [motor_simps]:
  "websocket_event s num WStype_BIN payload len = set_target_pos s (bin_to_int_le payload)"
  by (simp add: websocket_event_def)

lemma websocket_event_not_bin [motor_simps]:
  "type \<noteq> WStype_BIN \<Longrightarrow> websocket_event s num type payload len = s"
  by (cases type) (simp_all add: websocket_event_def)

lemma websocket_event_motor_inv [simp]:
  "motor_inv cfg (websocket_event s num type payload len) = motor_inv cfg s"
  by (cases "type = WStype_BIN") (simp_all add: websocket_event_bin websocket_event_not_bin)

lemma websocket_event_current [simp]:
  "current_pos (websocket_event s num type payload len) = current_pos s"
  by (cases "type = WStype_BIN")
     (simp_all add: websocket_event_bin websocket_event_not_bin set_target_pos_def)

lemma payload_buffer_take:
  "4 < length frame \<Longrightarrow> i < 4 \<Longrightarrow> payload_buffer frame z i = payload_buffer (take 4 frame) z i"
  by (simp add: payload_buffer_def)

lemma bin_to_int_le_cong:
  "(\<And>i. i < 4 \<Longrightarrow> p i = q i) \<Longrightarrow> bin_to_int_le p = bin_to_int_le q"
  by (simp add: bin_to_int_le_def)

subsection \<open>Properties of the callback\<close>

text \<open>C3. A binary frame of exactly four bytes sets the stepper's target to
  the value the specification's decoder gives for it, and changes nothing
  else of the motor state: the callback implements "decode, then
  \<open>set_target_pos\<close>".\<close>

theorem websocket_event_four_byte_frame:
  assumes "decode_frame frame = Some v"
  shows "websocket_event s num WStype_BIN (payload_buffer frame beyond) (length frame) =
           set_target_pos s v"
proof -
  have "length frame = 4"
    using assms by (simp add: decode_frame_def split: if_splits)
  then have "decode_frame frame = Some (bin_to_int_le (payload_buffer frame beyond))"
    by (rule decode_frame_bin_to_int_le)
  then show ?thesis
    using assms by (simp add: websocket_event_bin)
qed

theorem websocket_event_four_byte_frame_witness:
  "decode_frame [0, 0, 0, 5] = Some 5 \<and>
   websocket_event stepper_init 0 WStype_BIN (payload_buffer [0, 0, 0, 5] (\<lambda>_. 0)) 4 =
     set_target_pos stepper_init 5"
proof -
  have d: "decode_frame [0, 0, 0, 5] = Some 5"
    by (simp add: decode_frame_def be_value_def signed32_def)
  show ?thesis
    using websocket_event_four_byte_frame [OF d, of stepper_init 0 "\<lambda>_. 0"] d
    by (simp add: numeral_eq_Suc)
qed

text \<open>C12. A binary frame shorter than four bytes, which the specification
  rejects, still overwrites the target, with a value that depends on the memory
  past the end of the frame: two contents of that memory give two different
  targets.\<close>

theorem websocket_event_short_frame_reads_past_end:
  assumes "length frame < 4"
  shows "decode_frame frame = None \<and>
         target_pos (websocket_event s num WStype_BIN (payload_buffer frame (\<lambda>_. 0)) (length frame)) \<noteq>
         target_pos (websocket_event s num WStype_BIN (payload_buffer frame ((\<lambda>_. 0)(3 := 1))) (length frame))"
  using assms bin_to_int_le_reads_beyond [OF assms]
  by (simp add: decode_frame_def websocket_event_bin set_target_pos_def)

theorem websocket_event_short_frame_reads_past_end_witness:
  "length [0, 0, 5 :: byte] < 4 \<and> decode_frame [0, 0, 5] = None \<and>
   target_pos (websocket_event stepper_init 0 WStype_BIN (payload_buffer [0, 0, 5] (\<lambda>_. 0)) 3) \<noteq>
   target_pos (websocket_event stepper_init 0 WStype_BIN (payload_buffer [0, 0, 5] ((\<lambda>_. 0)(3 := 1))) 3)"
  using websocket_event_short_frame_reads_past_end [of "[0, 0, 5]" stepper_init 0]
  by (simp add: numeral_eq_Suc)

text \<open>C13. A binary frame longer than four bytes, which the specification
  rejects, is accepted: the target becomes the value of its first four bytes
  and the rest is ignored.\<close>

theorem websocket_event_long_frame_truncated:
  assumes "4 < length frame"
  shows "decode_frame frame = None \<and>
         websocket_event s num WStype_BIN (payload_buffer frame beyond) (length frame) =
           set_target_pos s (the (decode_frame (take 4 frame)))"
proof -
  have "bin_to_int_le (payload_buffer frame beyond) = bin_to_int_le (payload_buffer (take 4 frame) beyond)"
    using assms by (intro bin_to_int_le_cong) (simp add: payload_buffer_take)
  moreover have "decode_frame (take 4 frame) = Some (bin_to_int_le (payload_buffer (take 4 frame) beyond))"
    using assms by (intro decode_frame_bin_to_int_le) simp
  ultimately show ?thesis
    using assms by (simp add: decode_frame_def websocket_event_bin)
qed

theorem websocket_event_long_frame_truncated_witness:
  "4 < length [0, 0, 0, 7, 9 :: byte] \<and> decode_frame [0, 0, 0, 7, 9] = None \<and>
   websocket_event stepper_init 0 WStype_BIN (payload_buffer [0, 0, 0, 7, 9] (\<lambda>_. 0)) 5 =
     set_target_pos stepper_init 7"
proof -
  have "decode_frame (take 4 [0, 0, 0, 7, 9 :: byte]) = Some 7"
    by (simp add: decode_frame_def be_value_def signed32_def)
  then show ?thesis
    using websocket_event_long_frame_truncated [of "[0, 0, 0, 7, 9]" stepper_init 0 "\<lambda>_. 0"]
    by (simp add: numeral_eq_Suc)
qed

end
