(* ===== verification/Ota_Handlers.thy ===== *)
theory Ota_Handlers
  imports Blinds_Prelude
begin

text \<open>
  The four firmware-update callbacks that \<open>setup()\<close> of
  \<open>src/esp32-simple-blinds.cpp\<close> registers with \<open>ArduinoOTA\<close> (lines 58-91).
  Each writes to the serial port and touches nothing else; the model returns
  the text written (\<open>Serial.println\<close> appends CR LF, \<open>printf\<close>'s \<open>%u\<close> prints
  an unsigned decimal). The progress callback divides by \<open>total / 100\<close> in
  32-bit unsigned arithmetic: when \<open>total < 100\<close> that divisor is 0, and an
  integer division by zero traps on the ESP32 (\<open>IntegerDivideByZero\<close> panic);
  the model returns that fault as a value. The enumerations are ArduinoOTA's
  \<open>U_FLASH\<close>/\<open>U_SPIFFS\<close> commands and its \<open>ota_error_t\<close> codes 0 to 4.
\<close>

datatype ota_command = U_FLASH | U_SPIFFS

datatype ota_error_t =
    OTA_AUTH_ERROR
  | OTA_BEGIN_ERROR
  | OTA_CONNECT_ERROR
  | OTA_RECEIVE_ERROR
  | OTA_END_ERROR

datatype fault = IntegerDivideByZero

primrec ota_error_code :: "ota_error_t \<Rightarrow> nat" where
  "ota_error_code OTA_AUTH_ERROR = 0"
| "ota_error_code OTA_BEGIN_ERROR = 1"
| "ota_error_code OTA_CONNECT_ERROR = 2"
| "ota_error_code OTA_RECEIVE_ERROR = 3"
| "ota_error_code OTA_END_ERROR = 4"

definition crlf :: string where
  "crlf = [CHR 0x0D, CHR 0x0A]"

text \<open>\<open>printf\<close>'s \<open>%u\<close> conversion.\<close>

fun dec_string :: "nat \<Rightarrow> string" where
  "dec_string n =
     (if n < 10 then [char_of (48 + n)]
      else dec_string (n div 10) @ [char_of (48 + n mod 10)])"

definition ota_on_start :: "ota_command \<Rightarrow> string" where
  "ota_on_start cmd =
     (let type = (if cmd = U_FLASH then ''sketch'' else ''filesystem'')
      in ''Start updating '' @ type @ crlf)"

definition ota_on_end :: string where
  "ota_on_end = [CHR 0x0A] @ ''End'' @ crlf"

text \<open>The value printed by the progress callback, \<open>progress / (total / 100)\<close>.\<close>

definition ota_progress_pct :: "32 word \<Rightarrow> 32 word \<Rightarrow> 32 word" where
  "ota_progress_pct progress total_size = progress div (total_size div 100)"

definition ota_on_progress :: "32 word \<Rightarrow> 32 word \<Rightarrow> fault + string" where
  "ota_on_progress progress total_size =
     (if total_size div 100 = 0 then Inl IntegerDivideByZero
      else Inr (''Progress: '' @ dec_string (unat (ota_progress_pct progress total_size)) @
                ''%'' @ [CHR 0x0D]))"

definition ota_on_error :: "ota_error_t \<Rightarrow> string" where
  "ota_on_error error =
     ''Error['' @ dec_string (ota_error_code error) @ '']: '' @
     (if error = OTA_AUTH_ERROR then ''Auth Failed'' @ crlf
      else if error = OTA_BEGIN_ERROR then ''Begin Failed'' @ crlf
      else if error = OTA_CONNECT_ERROR then ''Connect Failed'' @ crlf
      else if error = OTA_RECEIVE_ERROR then ''Receive Failed'' @ crlf
      else if error = OTA_END_ERROR then ''End Failed'' @ crlf
      else [])"

text \<open>The events \<open>ArduinoOTA.handle()\<close> may report, and the callback each runs.\<close>

datatype ota_event =
    OTA_Start ota_command
  | OTA_Progress "32 word" "32 word"
  | OTA_End
  | OTA_Error ota_error_t

fun ota_callback :: "ota_event \<Rightarrow> fault + string" where
  "ota_callback (OTA_Start cmd) = Inr (ota_on_start cmd)"
| "ota_callback (OTA_Progress p t) = ota_on_progress p t"
| "ota_callback OTA_End = Inr ota_on_end"
| "ota_callback (OTA_Error e) = Inr (ota_on_error e)"

text \<open>Serial output of a sequence of callbacks; a fault stops the program.\<close>

fun ota_run :: "ota_event list \<Rightarrow> string \<Rightarrow> fault + string" where
  "ota_run [] out = Inr out"
| "ota_run (e # es) out =
     (case ota_callback e of Inl f \<Rightarrow> Inl f | Inr txt \<Rightarrow> ota_run es (out @ txt))"

declare dec_string.simps [simp del]

lemma ota_run_append_out: "ota_run es out = Inr out' \<Longrightarrow> \<exists>txt. out' = out @ txt"
  by (induction es arbitrary: out) (fastforce split: sum.splits)+

lemma unat_div_100: "unat (t div 100 :: 32 word) = unat t div 100"
  by (simp add: unat_div)

lemma ota_on_progress_fault_iff:
  "(\<exists>f. ota_on_progress progress total_size = Inl f) \<longleftrightarrow> unat total_size < 100"
proof -
  have "(total_size div 100 = 0) \<longleftrightarrow> unat total_size < 100"
    by (simp add: unat_div_100 flip: unat_eq_zero) (simp add: div_eq_0_iff)
  then show ?thesis
    by (simp add: ota_on_progress_def)
qed

lemma ota_callback_fault_iff:
  "(\<exists>f. ota_callback e = Inl f) \<longleftrightarrow> (\<exists>p t. e = OTA_Progress p t \<and> unat t < 100)"
  by (cases e) (simp_all add: ota_on_progress_fault_iff)

lemma ota_run_fault_iff:
  "(\<exists>f. ota_run es out = Inl f) \<longleftrightarrow> (\<exists>e \<in> set es. \<exists>f. ota_callback e = Inl f)"
  by (induction es arbitrary: out) (auto split: sum.splits)

subsection \<open>Properties of the callbacks\<close>

text \<open>C16. The final progress report (progress equal to the total) does not
  print 100: since the total is truncated to whole hundreds before dividing,
  it prints \<open>100 + (total mod 100) div (total div 100)\<close>, which is 100
  exactly when the remainder of the total modulo 100 is below the number of
  whole hundreds (so for every image of at least 10000 bytes, and for a
  199-byte image not: it prints 199).\<close>

theorem ota_progress_final_report:
  assumes "100 \<le> unat total_size"
  shows "unat (ota_progress_pct total_size total_size) =
           100 + unat total_size mod 100 div (unat total_size div 100) \<and>
         (unat (ota_progress_pct total_size total_size) = 100 \<longleftrightarrow>
            unat total_size mod 100 < unat total_size div 100)"
proof -
  let ?q = "unat total_size div 100" and ?r = "unat total_size mod 100"
  have q: "0 < ?q" using assms by simp
  have "unat total_size = ?r + ?q * 100"
    by simp
  then have "unat total_size div ?q = 100 + ?r div ?q"
    using q by (metis add.commute div_mult_self1 less_numeral_extra(3) mult.commute)
  moreover have "?r div ?q = 0 \<longleftrightarrow> ?r < ?q"
    using q assms by (simp add: div_eq_0_iff)
  ultimately show ?thesis
    using assms by (simp add: ota_progress_pct_def unat_div unat_div_100)
qed

theorem ota_progress_final_report_witness:
  "100 \<le> unat (199 :: 32 word) \<and> unat (ota_progress_pct 199 199) = 199 \<and>
   unat (ota_progress_pct 199 199) \<noteq> 100"
proof -
  have h: "100 \<le> unat (199 :: 32 word)"
    by simp
  from ota_progress_final_report [OF h] h show ?thesis
    by simp
qed

text \<open>C17. The error callback's \<open>if\<close>/\<open>else if\<close> chain covers every
  \<open>ota_error_t\<close> code: after the \<open>Error[%u]: \<close> prefix each code prints a
  non-empty message of its own, ended by a line break, and no two codes share
  a message.\<close>

theorem ota_on_error_messages:
  "(\<forall>e. \<exists>msg. msg \<noteq> [] \<and>
          ota_on_error e = ''Error['' @ dec_string (ota_error_code e) @ '']: '' @ msg @ crlf) \<and>
   inj (\<lambda>e. drop (length (''Error['' @ dec_string (ota_error_code e) @ '']: '')) (ota_on_error e))"
proof
  show "\<forall>e. \<exists>msg. msg \<noteq> [] \<and>
          ota_on_error e = ''Error['' @ dec_string (ota_error_code e) @ '']: '' @ msg @ crlf"
  proof
    fix e
    show "\<exists>msg. msg \<noteq> [] \<and>
          ota_on_error e = ''Error['' @ dec_string (ota_error_code e) @ '']: '' @ msg @ crlf"
      by (cases e) (simp_all add: ota_on_error_def)
  qed
next
  show "inj (\<lambda>e. drop (length (''Error['' @ dec_string (ota_error_code e) @ '']: '')) (ota_on_error e))"
  proof (rule injI)
    fix a b
    assume "drop (length (''Error['' @ dec_string (ota_error_code a) @ '']: '')) (ota_on_error a) =
            drop (length (''Error['' @ dec_string (ota_error_code b) @ '']: '')) (ota_on_error b)"
    then show "a = b"
      by (cases a; cases b) (simp_all add: ota_on_error_def crlf_def)
  qed
qed

end
