(* ===== verification/Blinds_Main.thy ===== *)
theory Blinds_Main
  imports Websocket_Handler Ota_Handlers
begin

text \<open>
  The firmware's globals, \<open>setup()\<close> and \<open>loop()\<close> of
  \<open>src/esp32-simple-blinds.cpp\<close> (lines 14-18 and 47-104). The global state
  is the stepper object, the pin modes, the serial output and the flags of the
  started services. \<open>setup()\<close> configures the four coil pins as outputs,
  joins the WiFi network by polling \<open>WiFi.status()\<close> every 500 ms until it
  reports \<open>WL_CONNECTED\<close> (a loop that never ends if it never does: modelled
  with \<open>partial_function (option)\<close>, \<open>None\<close> for not returning), registers
  the update callbacks and starts both servers. One call of \<open>loop()\<close>
  services the update listener (its callbacks, which may trap), then the
  WebSocket server (the callback for each event it delivers, in order), then
  calls \<open>keep_target_pos\<close> once, at the current clock reading. The minimum
  step interval \<open>d\<close> is a constant of the stepper library, a parameter here.
\<close>

datatype wl_status_t =
    WL_IDLE_STATUS
  | WL_NO_SSID_AVAIL
  | WL_SCAN_COMPLETED
  | WL_CONNECTED
  | WL_CONNECT_FAILED
  | WL_CONNECTION_LOST
  | WL_DISCONNECTED

datatype pin_mode_t = INPUT | OUTPUT

text \<open>The global \<open>Simple28BYJ48 stepper(12, 14, 27, 26)\<close>.\<close>

definition blinds_stepper_cfg :: "clock_t \<Rightarrow> stepper_cfg" where
  "blinds_stepper_cfg d = simple28byj48 12 14 27 26 d"

record blinds_state =
  stepper_st :: stepper
  pin_mode :: "nat \<Rightarrow> pin_mode_t"
  serial_out :: string
  serial_baud :: nat
  ota_started :: bool
  ws_started :: bool
  ws_port :: nat

text \<open>The globals before \<open>setup()\<close> runs: the stepper as its constructor leaves
  it, every pin an input, the WebSocket server bound to port 80.\<close>

definition boot_state :: blinds_state where
  "boot_state = \<lparr>stepper_st = stepper_init, pin_mode = (\<lambda>_. INPUT), serial_out = [],
                 serial_baud = 0, ota_started = False, ws_started = False, ws_port = 80\<rparr>"

text \<open>\<open>while (WiFi.status() != WL_CONNECTED) delay(500);\<close>, where \<open>status k\<close>
  is the status reported at the \<open>k\<close>-th poll; the result is the poll at which
  the loop exits.\<close>

partial_function (option) wifi_wait :: "(nat \<Rightarrow> wl_status_t) \<Rightarrow> nat \<Rightarrow> nat option" where
  "wifi_wait status k = (if status k \<noteq> WL_CONNECTED then wifi_wait status (Suc k) else Some k)"

definition blinds_setup :: "clock_t \<Rightarrow> (nat \<Rightarrow> wl_status_t) \<Rightarrow> blinds_state option" where
  "blinds_setup d status =
     (let cfg = blinds_stepper_cfg d;
          b1 = boot_state\<lparr>serial_baud := 9600\<rparr>;
          b2 = b1\<lparr>pin_mode := (pin_mode b1)(in1 cfg := OUTPUT, in2 cfg := OUTPUT,
                                             in3 cfg := OUTPUT, in4 cfg := OUTPUT)\<rparr>
      in case wifi_wait status 0 of
           None \<Rightarrow> None
         | Some _ \<Rightarrow> Some (b2\<lparr>ota_started := True, ws_started := True\<rparr>))"

text \<open>The inputs of one call of \<open>loop()\<close>: what the update listener and the
  WebSocket server report during it, and the clock reading at which
  \<open>keep_target_pos\<close> runs.\<close>

record ws_event =
  ev_num :: nat
  ev_type :: WStype_t
  ev_payload :: "nat \<Rightarrow> byte"
  ev_len :: nat

record loop_input =
  ota_events :: "ota_event list"
  ws_events :: "ws_event list"
  loop_now :: clock_t

fun ws_dispatch :: "ws_event list \<Rightarrow> stepper \<Rightarrow> stepper" where
  "ws_dispatch [] s = s"
| "ws_dispatch (e # es) s =
     ws_dispatch es (websocket_event s (ev_num e) (ev_type e) (ev_payload e) (ev_len e))"

definition blinds_loop :: "clock_t \<Rightarrow> loop_input \<Rightarrow> blinds_state \<Rightarrow> fault + blinds_state" where
  "blinds_loop d inp b =
     (case ota_run (ota_events inp) (serial_out b) of
        Inl f \<Rightarrow> Inl f
      | Inr out \<Rightarrow>
          (let s1 = ws_dispatch (ws_events inp) (stepper_st b);
               s2 = keep_target_pos (blinds_stepper_cfg d) (loop_now inp) s1
           in Inr (b\<lparr>serial_out := out, stepper_st := s2\<rparr>)))"

fun run_loop :: "clock_t \<Rightarrow> loop_input list \<Rightarrow> blinds_state \<Rightarrow> fault + blinds_state" where
  "run_loop d [] b = Inr b"
| "run_loop d (inp # inps) b =
     (case blinds_loop d inp b of Inl f \<Rightarrow> Inl f | Inr b' \<Rightarrow> run_loop d inps b')"

text \<open>The states of the firmware: those \<open>setup()\<close> returns, and those one more
  call of \<open>loop()\<close> leads to without a trap.\<close>

inductive reachable :: "clock_t \<Rightarrow> blinds_state \<Rightarrow> bool" for d where
  boot: "blinds_setup d status = Some b \<Longrightarrow> reachable d b"
| iter: "reachable d b \<Longrightarrow> blinds_loop d inp b = Inr b' \<Longrightarrow> reachable d b'"

text \<open>What every reachable state satisfies: the motor invariant for the
  firmware's stepper, positions within the range of a C \<open>int\<close>, and the four
  coil pins configured as outputs.\<close>

definition blinds_inv :: "clock_t \<Rightarrow> blinds_state \<Rightarrow> bool" where
  "blinds_inv d b \<longleftrightarrow>
     motor_inv (blinds_stepper_cfg d) (stepper_st b) \<and>
     int32_range (current_pos (stepper_st b)) \<and> int32_range (target_pos (stepper_st b)) \<and>
     pin_mode b 12 = OUTPUT \<and> pin_mode b 14 = OUTPUT \<and>
     pin_mode b 27 = OUTPUT \<and> pin_mode b 26 = OUTPUT"

definition idle_input :: "clock_t \<Rightarrow> loop_input" where
  "idle_input t = \<lparr>ota_events = [], ws_events = [], loop_now = t\<rparr>"

subsection \<open>One call of \<open>loop()\<close>\<close>

lemma blinds_loop_Inr:
  "ota_run (ota_events inp) (serial_out b) = Inr out \<Longrightarrow>
   blinds_loop d inp b =
     Inr (b\<lparr>serial_out := out,
           stepper_st := keep_target_pos (blinds_stepper_cfg d) (loop_now inp)
                           (ws_dispatch (ws_events inp) (stepper_st b))\<rparr>)"
  by (simp add: blinds_loop_def)

lemma blinds_loop_stepper:
  "blinds_loop d inp b = Inr b' \<Longrightarrow>
   stepper_st b' = keep_target_pos (blinds_stepper_cfg d) (loop_now inp)
                     (ws_dispatch (ws_events inp) (stepper_st b)) \<and>
   pin_mode b' = pin_mode b"
  by (auto simp: blinds_loop_def Let_def split: sum.splits)

lemma blinds_loop_fault:
  "(\<exists>f. blinds_loop d inp b = Inl f) \<longleftrightarrow> (\<exists>f. ota_run (ota_events inp) (serial_out b) = Inl f)"
  by (auto simp: blinds_loop_def Let_def split: sum.splits)

lemma run_loop_idle:
  "run_loop d (map idle_input ts) b =
     Inr (b\<lparr>stepper_st := run_keep (blinds_stepper_cfg d) ts (stepper_st b)\<rparr>)"
  by (induction ts arbitrary: b) (simp_all add: blinds_loop_def idle_input_def)

lemma ws_dispatch_append:
  "ws_dispatch (es @ [e]) s =
     websocket_event (ws_dispatch es s) (ev_num e) (ev_type e) (ev_payload e) (ev_len e)"
  by (induction es arbitrary: s) simp_all

lemma step_delay_blinds [simp]: "step_delay (blinds_stepper_cfg d) = d"
  by (simp add: blinds_stepper_cfg_def simple28byj48_def)

lemma coil_seq_blinds [simp]: "coil_seq (blinds_stepper_cfg d) = halfstep_seq"
  by (simp add: blinds_stepper_cfg_def simple28byj48_def)

lemma ws_dispatch_no_bin:
  "\<forall>e \<in> set es. ev_type e \<noteq> WStype_BIN \<Longrightarrow> ws_dispatch es s = s"
  by (induction es arbitrary: s) (simp_all add: websocket_event_not_bin)

lemma wifi_wait_connected_now: "status k = WL_CONNECTED \<Longrightarrow> wifi_wait status k = Some k"
  by (simp add: wifi_wait.simps)

lemma ws_dispatch_current [simp]: "current_pos (ws_dispatch es s) = current_pos s"
  by (induction es arbitrary: s) simp_all

lemma ws_dispatch_motor_inv [simp]: "motor_inv cfg (ws_dispatch es s) = motor_inv cfg s"
  by (induction es arbitrary: s) simp_all

lemma ws_dispatch_target:
  "target_pos (ws_dispatch es s) = target_pos s \<or>
   (\<exists>bin. target_pos (ws_dispatch es s) = bin_to_int_le bin)"
proof (induction es arbitrary: s)
  case Nil
  then show ?case by simp
next
  case (Cons e es)
  show ?case
  proof (cases "ev_type e = WStype_BIN")
    case True
    then show ?thesis
      using Cons.IH [of "websocket_event s (ev_num e) (ev_type e) (ev_payload e) (ev_len e)"]
      by (auto simp: websocket_event_bin set_target_pos_def)
  next
    case False
    then show ?thesis
      using Cons.IH [of s] by (simp add: websocket_event_not_bin)
  qed
qed

lemma ws_dispatch_other_fields:
  "step_idx (ws_dispatch es s) = step_idx s \<and> coil_out (ws_dispatch es s) = coil_out s \<and>
   last_step_time (ws_dispatch es s) = last_step_time s"
proof (induction es arbitrary: s)
  case (Cons e es)
  then show ?case
    by (cases "ev_type e = WStype_BIN") (simp_all add: websocket_event_bin websocket_event_not_bin set_target_pos_def)
qed simp

subsection \<open>The WiFi wait loop\<close>

lemma wifi_wait_Some:
  assumes "wifi_wait status k = Some j"
  shows "k \<le> j \<and> status j = WL_CONNECTED \<and> (\<forall>i. k \<le> i \<and> i < j \<longrightarrow> status i \<noteq> WL_CONNECTED)"
proof (rule wifi_wait.raw_induct
         [where P = "\<lambda>status k j. k \<le> j \<and> status j = WL_CONNECTED \<and>
                      (\<forall>i. k \<le> i \<and> i < j \<longrightarrow> status i \<noteq> WL_CONNECTED)", OF _ assms])
  fix f status k j
  assume IH: "\<And>status k j. f status k = Some j \<Longrightarrow>
                k \<le> j \<and> status j = WL_CONNECTED \<and> (\<forall>i. k \<le> i \<and> i < j \<longrightarrow> status i \<noteq> WL_CONNECTED)"
    and eq: "(if status k \<noteq> WL_CONNECTED then f status (Suc k) else Some k) = Some j"
  show "k \<le> j \<and> status j = WL_CONNECTED \<and> (\<forall>i. k \<le> i \<and> i < j \<longrightarrow> status i \<noteq> WL_CONNECTED)"
  proof (cases "status k = WL_CONNECTED")
    case True
    with eq show ?thesis by auto
  next
    case False
    with eq have "f status (Suc k) = Some j" by simp
    from IH [OF this] False show ?thesis
      by (auto simp: le_Suc_eq Suc_le_eq dest: le_neq_implies_less)
  qed
qed

lemma wifi_wait_returns:
  "status n = WL_CONNECTED \<Longrightarrow> k \<le> n \<Longrightarrow> \<exists>j. wifi_wait status k = Some j"
proof (induction "n - k" arbitrary: k)
  case 0
  then have "k = n" by simp
  with 0 show ?case by (simp add: wifi_wait.simps)
next
  case (Suc m)
  show ?case
  proof (cases "status k = WL_CONNECTED")
    case True
    then show ?thesis by (simp add: wifi_wait.simps)
  next
    case False
    have "\<exists>j. wifi_wait status (Suc k) = Some j"
      using Suc by (intro Suc.hyps(1)) simp_all
    with False show ?thesis by (simp add: wifi_wait.simps)
  qed
qed

subsection \<open>The invariant of the reachable states\<close>

lemma length_halfstep_seq [simp]: "length halfstep_seq = 8"
  by (simp add: halfstep_seq_def)

lemma int32_range_bin_to_int_le [simp]: "int32_range (bin_to_int_le bin)"
  by (simp add: bin_to_int_le_def)

lemma blinds_setup_Some:
  "blinds_setup d status = Some b \<longleftrightarrow>
   (\<exists>j. wifi_wait status 0 = Some j) \<and>
   b = boot_state\<lparr>serial_baud := 9600,
                  pin_mode := (\<lambda>_. INPUT)(12 := OUTPUT, 14 := OUTPUT, 27 := OUTPUT, 26 := OUTPUT),
                  ota_started := True, ws_started := True\<rparr>"
  by (auto simp: blinds_setup_def Let_def blinds_stepper_cfg_def simple28byj48_def boot_state_def
           split: option.splits)

lemma blinds_inv_setup: "blinds_setup d status = Some b \<Longrightarrow> blinds_inv d b"
  by (auto simp: blinds_setup_Some blinds_inv_def boot_state_def stepper_init_def motor_inv_def
                 int32_range_def)

lemma blinds_inv_loop:
  assumes "blinds_inv d b" and "blinds_loop d inp b = Inr b'"
  shows "blinds_inv d b'"
proof -
  let ?cfg = "blinds_stepper_cfg d"
  let ?s1 = "ws_dispatch (ws_events inp) (stepper_st b)"
  from blinds_loop_stepper [OF assms(2)]
  have s': "stepper_st b' = keep_target_pos ?cfg (loop_now inp) ?s1" and p: "pin_mode b' = pin_mode b"
    by simp_all
  from assms(1) have "motor_inv ?cfg ?s1"
    by (simp add: blinds_inv_def)
  then have m: "motor_inv ?cfg (stepper_st b')"
    unfolding s' by (rule keep_motor_inv) simp
  from assms(1) have c1: "int32_range (current_pos ?s1)"
    by (simp add: blinds_inv_def)
  have t1: "int32_range (target_pos ?s1)"
    using ws_dispatch_target [of "ws_events inp" "stepper_st b"] assms(1)
    by (auto simp: blinds_inv_def)
  have "int32_range (current_pos (stepper_st b'))"
    unfolding s' using keep_current_between [of ?s1 ?cfg "loop_now inp"]
    by (intro int32_range_between [OF c1 t1]) simp_all
  with m t1 p assms(1) show ?thesis
    by (simp add: blinds_inv_def s')
qed

lemma reachable_blinds_inv: "reachable d b \<Longrightarrow> blinds_inv d b"
proof (induction rule: reachable.induct)
  case (boot status b)
  then show ?case by (rule blinds_inv_setup)
next
  case (iter b inp b')
  then show ?case by (blast intro: blinds_inv_loop)
qed

end
