(* ===== verification/Controller_Spec.thy ===== *)
theory Controller_Spec
  imports Blinds_Prelude
begin

text \<open>
  The abstract specification of the blind controller (specification,
  sections 2, 4.2 and 8), independent of coils, phases and clocks: a position
  and a target; a command overwrites the target; a tick on which a step is due
  moves the position one step towards the target, and any other tick does
  nothing. \<open>Blinds_Main\<close>'s \<open>loop()\<close> is shown to implement it in the root
  theory.
\<close>

record blind_abs =
  abs_pos :: int
  abs_target :: int

datatype blind_event = Command int | Tick bool

fun abs_step :: "blind_abs \<Rightarrow> blind_event \<Rightarrow> blind_abs" where
  "abs_step a (Command v) = a\<lparr>abs_target := v\<rparr>"
| "abs_step a (Tick due) =
     (if due \<and> abs_pos a \<noteq> abs_target a
      then a\<lparr>abs_pos := abs_pos a + sgn (abs_target a - abs_pos a)\<rparr>
      else a)"

fun commands_of :: "blind_event list \<Rightarrow> int list" where
  "commands_of [] = []"
| "commands_of (Command v # evs) = v # commands_of evs"
| "commands_of (Tick _ # evs) = commands_of evs"

definition abs_run :: "blind_abs \<Rightarrow> blind_event list \<Rightarrow> blind_abs" where
  "abs_run a evs = foldl abs_step a evs"

lemma abs_run_Nil [simp]: "abs_run a [] = a"
  by (simp add: abs_run_def)

lemma abs_run_append [simp]: "abs_run a (xs @ ys) = abs_run (abs_run a xs) ys"
  by (simp add: abs_run_def)

lemma abs_run_Cons [simp]: "abs_run a (x # xs) = abs_run (abs_step a x) xs"
  by (simp add: abs_run_def)

text \<open>A run of commands only: the position is untouched and the last command
  is the target.\<close>

lemma abs_run_commands:
  "abs_run a (map (\<lambda>x. Command (f x)) xs) =
     (if xs = [] then a else a\<lparr>abs_target := f (last xs)\<rparr>)"
  by (induction xs arbitrary: a) auto

text \<open>The target after a run is the last command of the run, if any.\<close>

lemma abs_run_target:
  "abs_target (abs_run a evs) =
     (if commands_of evs = [] then abs_target a else last (commands_of evs))"
  by (induction evs arbitrary: a rule: commands_of.induct) auto

lemma commands_of_append [simp]: "commands_of (xs @ ys) = commands_of xs @ commands_of ys"
  by (induction xs rule: commands_of.induct) auto

end
