(* ===== verification/Spec2Isabelle.thy ===== *)
theory Spec2Isabelle
  imports Blinds_Main Controller_Spec
begin

text \<open>
  \<^bold>\<open>A verification development of esp32-simple-blinds.\<close>

  The program (\<open>src/esp32-simple-blinds.cpp\<close>, 104 lines) drives a 28BYJ-48
  stepper motor that tilts a horizontal blind to an absolute step position
  received as a 4-byte binary WebSocket frame. Its parts and how they meet:
  \<^item> the global \<open>Simple28BYJ48 stepper(12, 14, 27, 26)\<close> (line 17), an object of
    a stepper library that is not part of the repository: it keeps the current
    and target positions, the phase index into its coil table, the time of the
    last step and the coil levels, and offers \<open>set_target_pos\<close> and the
    non-blocking advance-if-due step \<open>keep_target_pos\<close>;
  \<^item> the decoder \<open>bin_to_int_le\<close> (lines 20-24) and the WebSocket callback
    \<open>websocket_event\<close> (lines 26-45), which sets the target from a binary frame;
  \<^item> \<open>setup()\<close> (lines 47-97): pin modes, the blocking WiFi association loop,
    the four firmware-update (OTA) callbacks, the two servers;
  \<^item> \<open>loop()\<close> (lines 99-104): \<open>ArduinoOTA.handle()\<close>, \<open>webSocket.loop()\<close>,
    \<open>stepper.keep_target_pos()\<close>, in that order, forever.

  \<^bold>\<open>Theories.\<close>
  \<^item> \<open>Blinds_Prelude\<close>: the machine types (\<open>byte\<close>, the 32-bit clock
    \<open>clock_t\<close>, the 4-bit \<open>coil_pattern\<close>), the range of a C \<open>int\<close>
    (\<open>int32_range\<close>), and shared lemmas on words (bytes to \<open>uint\<close>, \<open>sint\<close> from
    \<open>uint\<close>, elapsed time on a wrapping clock) and on stepping towards a target.
  \<^item> \<open>Coil_Sequencer\<close> and \<open>Stepper_Motor\<close> model the stepper library from the
    specification (sections 3, 4.1, 4.2), since its source is not in the
    repository: the record \<open>stepper\<close>, its configuration \<open>stepper_cfg\<close>, the
    constructor \<open>simple28byj48\<close> with the 8-phase half-step table, the
    operations \<open>set_target_pos\<close>, \<open>next_step_idx\<close> (the wrapping phase update,
    written with explicit branches as embedded code does) and
    \<open>keep_target_pos\<close> (equality check, then the rate limit on the unsigned
    difference \<open>now - last_step_time\<close>, then one step). Lemmas: the three
    branches of \<open>keep_target_pos\<close>, the phase update equals \<open>(i + d) mod N\<close>,
    the motor invariant \<open>motor_inv\<close> (phase index in range, congruent to the
    position modulo \<open>N\<close>, coils low or showing the phase's pattern) and its
    preservation, and the exact position after any run of spaced calls
    (\<open>run_keep_current\<close>, \<open>keep_target_pos_converges\<close>).
  \<^item> \<open>Frame_Decoder\<close>: \<open>bin_to_int_le\<close> as 32-bit word operations read by
    \<open>sint\<close>, the payload pointer \<open>payload_buffer\<close> (the frame, then whatever
    memory follows), the specification's contract \<open>decode_frame\<close> and the
    client's encoder \<open>encode_int\<close>; the decoder refines the contract on 4-byte
    frames, round trips in both directions, byte order.
  \<^item> \<open>Websocket_Handler\<close>: the library's \<open>WStype_t\<close> and \<open>websocket_event\<close>;
    behaviour on 4-byte, shorter and longer binary frames.
  \<^item> \<open>Ota_Handlers\<close>: the four OTA callbacks as the serial text they write,
    with the integer division trap of the progress callback as a \<open>fault\<close>
    value; \<open>ota_run\<close> runs the callbacks \<open>ArduinoOTA.handle()\<close> reports.
  \<^item> \<open>Blinds_Main\<close>: the global state \<open>blinds_state\<close>, \<open>wifi_wait\<close> (the
    association loop as \<open>partial_function (option)\<close>: \<open>None\<close> is "never
    returns"), \<open>blinds_setup\<close>, one call of \<open>loop()\<close> as \<open>blinds_loop\<close>
    (\<open>fault + blinds_state\<close>), repeated calls \<open>run_loop\<close>, and the reachable
    states \<open>reachable\<close> as an inductive predicate with the invariant
    \<open>blinds_inv\<close> proved by rule induction.
  \<^item> \<open>Controller_Spec\<close>: the abstract specification of the controller, a
    position and a target changed by \<open>Command\<close> and \<open>Tick\<close> events
    (\<open>abs_step\<close>, \<open>abs_run\<close>); \<open>abs_of\<close> and \<open>ws_commands\<close> below map the
    firmware onto it.
  \<^item> This theory: the properties that span the components, stated of
    \<open>setup()\<close> and \<open>loop()\<close>, and their witnesses on a concrete run
    (\<open>demo_boot\<close>: \<open>setup()\<close> with the network up at once; \<open>demo_state\<close>:
    one \<open>loop()\<close> later, after a command for position 3 at clock 2).

  \<^bold>\<open>Choices.\<close> Clock readings are 32-bit unsigned words, as Arduino's
  \<open>millis()\<close>/\<open>micros()\<close> on the ESP32, so the rate limit is stated in wrapping
  arithmetic and \<open>loop_rate_limiter_wraps\<close> relates it to real elapsed time.
  Positions are unbounded integers with \<open>int32_range\<close> proved invariant, so no
  C \<open>int\<close> overflow is hidden. The library's constructor is not in the
  repository: \<open>stepper_init\<close> takes position, target, phase and step time 0
  and the coil levels low, since \<open>setup()\<close> writes no coil level (only the
  pin modes); the invariants allow the coils to be low or to show the
  current phase. The minimum step interval \<open>d\<close> is a library
  constant, a parameter of every statement. The WiFi loop needs no fuel: its
  termination is proved from the existence of a connected poll.

  \<^bold>\<open>Not modelled.\<close> The WiFi, WebSocket and OTA libraries themselves
  (transport, framing, flashing, the reboot after an update), the electrical
  GPIO writes beyond the logical coil levels, and \<open>credentials.h\<close>.

  \<^bold>\<open>Properties.\<close> The claims C1-C27 of the manifest: convergence,
  ordering, rate limit and hold of \<open>loop()\<close> (C1, C2, C5, C6, C21); the
  invariants of the reachable states and the phase continuity of a single
  call (C4, C7, C8, C24); the decoder and the callback (C3, C9-C13); the
  update callbacks, their trap, the final progress report and the error
  messages (C14-C17); \<open>setup()\<close> (C18-C20); refinement of the abstract
  controller by \<open>loop()\<close> and the order of several commands in one call (C22,
  C23), lifted to whole runs (\<open>run_events\<close>, \<open>run_commands\<close>: C25, C26) and
  to convergence to the last command (C27). Findings: short binary frames are
  decoded from memory past the frame (C12), longer ones are truncated instead
  of rejected (C13), the decoder agrees with the little-endian reading its
  name announces only on byte palindromes (C11), the OTA progress callback
  divides by zero for images under 100 bytes (C15) and its final report is
  not 100 whenever the total modulo 100 reaches the number of whole hundreds
  (C16).

  \<^bold>\<open>Plan for further work.\<close> Relate the four-phase full-step table to the
  same motor theorems; model the OTA restart after a completed update as a
  return to \<open>boot_state\<close> (losing the position, a non-goal of the
  specification).
\<close>

text \<open>The concrete run used by the witnesses.\<close>

definition demo_cmd :: ws_event where
  "demo_cmd = \<lparr>ev_num = 0, ev_type = WStype_BIN,
               ev_payload = payload_buffer [0, 0, 0, 3] (\<lambda>_. 0), ev_len = 4\<rparr>"

definition demo_input :: loop_input where
  "demo_input = \<lparr>ota_events = [], ws_events = [demo_cmd], loop_now = 2\<rparr>"

definition demo_boot :: blinds_state where
  "demo_boot = boot_state\<lparr>serial_baud := 9600,
                  pin_mode := (\<lambda>_. INPUT)(12 := OUTPUT, 14 := OUTPUT, 27 := OUTPUT, 26 := OUTPUT),
                  ota_started := True, ws_started := True\<rparr>"

definition demo_state :: blinds_state where
  "demo_state = demo_boot\<lparr>stepper_st :=
     \<lparr>current_pos = 1, target_pos = 3, step_idx = 1, last_step_time = 2, coil_out = 3\<rparr>\<rparr>"

text \<open>The abstraction of the stepper to the controller specification, and of the
  events of one \<open>webSocket.loop()\<close> to its commands.\<close>

definition abs_of :: "stepper \<Rightarrow> blind_abs" where
  "abs_of s = \<lparr>abs_pos = current_pos s, abs_target = target_pos s\<rparr>"

definition ws_commands :: "ws_event list \<Rightarrow> blind_event list" where
  "ws_commands es =
     map (\<lambda>e. Command (bin_to_int_le (ev_payload e))) (filter (\<lambda>e. ev_type e = WStype_BIN) es)"

text \<open>The controller events of one call of \<open>loop()\<close>: its binary commands,
  then one tick; of a run, the calls' events in order, with one due flag per
  call; and the command values a run receives, in order.\<close>

definition call_events :: "loop_input \<Rightarrow> bool \<Rightarrow> blind_event list" where
  "call_events inp due = ws_commands (ws_events inp) @ [Tick due]"

definition run_events :: "loop_input list \<Rightarrow> bool list \<Rightarrow> blind_event list" where
  "run_events inps dues = concat (map2 call_events inps dues)"

definition run_commands :: "loop_input list \<Rightarrow> int list" where
  "run_commands inps =
     concat (map (\<lambda>inp. map (\<lambda>e. bin_to_int_le (ev_payload e))
                             (filter (\<lambda>e. ev_type e = WStype_BIN) (ws_events inp))) inps)"

subsection \<open>The concrete run\<close>

lemma demo_setup: "blinds_setup 2 (\<lambda>_. WL_CONNECTED) = Some demo_boot"
  by (simp add: blinds_setup_def Let_def wifi_wait_connected_now blinds_stepper_cfg_def
                simple28byj48_def boot_state_def demo_boot_def)

lemma demo_boot_stepper [simp]: "stepper_st demo_boot = stepper_init"
  by (simp add: demo_boot_def boot_state_def)

lemma demo_dispatch:
  "websocket_event stepper_init (ev_num demo_cmd) (ev_type demo_cmd) (ev_payload demo_cmd) (ev_len demo_cmd) =
     set_target_pos stepper_init 3"
  by (simp add: demo_cmd_def websocket_event_bin bin_to_int_le_def payload_buffer_def)

lemma demo_keep:
  "keep_target_pos (blinds_stepper_cfg 2) 2 (set_target_pos stepper_init 3) =
     \<lparr>current_pos = 1, target_pos = 3, step_idx = 1, last_step_time = 2, coil_out = 3\<rparr>"
proof -
  have s: "set_target_pos stepper_init 3 =
             \<lparr>current_pos = 0, target_pos = 3, step_idx = 0, last_step_time = 0, coil_out = 0\<rparr>"
    by (simp add: set_target_pos_def stepper_init_def)
  have n: "next_step_idx 8 0 1 = 1" by (simp add: next_step_idx_def)
  have c: "coil_pattern_of halfstep_seq (Suc 0) = 3"
    by (simp add: coil_pattern_of_def halfstep_seq_def)
  show ?thesis
    unfolding s by (subst keep_due) (simp_all add: step_dir_def n c)
qed

lemma demo_loop: "blinds_loop 2 demo_input demo_boot = Inr demo_state"
proof -
  have "ota_run (ota_events demo_input) (serial_out demo_boot) = Inr (serial_out demo_boot)"
    by (simp add: demo_input_def)
  from blinds_loop_Inr [where d = 2, OF this] show ?thesis
    by (simp add: demo_input_def demo_dispatch demo_keep demo_state_def)
qed

lemma reachable_demo_state: "reachable 2 demo_state"
  by (rule reachable.iter [OF reachable.boot [OF demo_setup] demo_loop])

lemma demo_state_stepper [simp]:
  "stepper_st demo_state =
     \<lparr>current_pos = 1, target_pos = 3, step_idx = 1, last_step_time = 2, coil_out = 3\<rparr>"
  by (simp add: demo_state_def)

subsection \<open>Refinement lemmas\<close>

lemma ws_dispatch_abs:
  "abs_of (ws_dispatch es s) = abs_run (abs_of s) (ws_commands es)"
proof (induction es arbitrary: s)
  case Nil
  then show ?case by (simp add: ws_commands_def)
next
  case (Cons e es)
  let ?s' = "websocket_event s (ev_num e) (ev_type e) (ev_payload e) (ev_len e)"
  have IH: "abs_of (ws_dispatch es ?s') = abs_run (abs_of ?s') (ws_commands es)"
    by (rule Cons.IH)
  show ?case
  proof (cases "ev_type e = WStype_BIN")
    case True
    with IH show ?thesis
      by (simp add: ws_commands_def websocket_event_bin abs_of_def set_target_pos_def)
  next
    case False
    with IH show ?thesis
      by (simp add: ws_commands_def websocket_event_not_bin)
  qed
qed

lemma keep_abs:
  "abs_of (keep_target_pos cfg now s) =
     abs_step (abs_of s) (Tick (step_delay cfg \<le> now - last_step_time s))"
  by (auto simp: keep_target_pos_def Let_def abs_of_def step_dir_def sgn_if not_less)

text \<open>The refinement of one call, lifted to runs.\<close>

lemma blinds_loop_abs:
  assumes "blinds_loop d inp b = Inr b'"
  shows "abs_of (stepper_st b') =
           abs_run (abs_of (stepper_st b))
             (call_events inp (d \<le> loop_now inp - last_step_time (stepper_st b)))"
proof -
  let ?s1 = "ws_dispatch (ws_events inp) (stepper_st b)"
  have "abs_of (stepper_st b') = abs_step (abs_of ?s1) (Tick (d \<le> loop_now inp - last_step_time ?s1))"
    using blinds_loop_stepper [OF assms] by (simp add: keep_abs)
  then show ?thesis
    using ws_dispatch_other_fields [of "ws_events inp" "stepper_st b"]
    by (simp add: ws_dispatch_abs call_events_def)
qed

lemma run_loop_append:
  "run_loop d (xs @ ys) b = (case run_loop d xs b of Inl f \<Rightarrow> Inl f | Inr b' \<Rightarrow> run_loop d ys b')"
  by (induction xs arbitrary: b) (simp_all split: sum.split)

lemma run_events_Cons [simp]:
  "run_events (inp # inps) (due # dues) = call_events inp due @ run_events inps dues"
  by (simp add: run_events_def)

lemma run_loop_abs:
  assumes "run_loop d inps b = Inr b'"
  shows "\<exists>dues. length dues = length inps \<and>
           abs_of (stepper_st b') = abs_run (abs_of (stepper_st b)) (run_events inps dues)"
  using assms
proof (induction inps arbitrary: b)
  case Nil
  then show ?case by (simp add: run_events_def)
next
  case (Cons inp inps)
  then obtain b1 where l: "blinds_loop d inp b = Inr b1" and r: "run_loop d inps b1 = Inr b'"
    by (auto split: sum.splits)
  from Cons.IH [OF r] obtain dues where
    "length dues = length inps" "abs_of (stepper_st b') = abs_run (abs_of (stepper_st b1)) (run_events inps dues)"
    by blast
  with blinds_loop_abs [OF l] show ?case
    by (intro exI [of _ "(d \<le> loop_now inp - last_step_time (stepper_st b)) # dues"]) simp
qed

lemma commands_of_run_events:
  "length dues = length inps \<Longrightarrow> commands_of (run_events inps dues) = run_commands inps"
proof (induction inps arbitrary: dues)
  case Nil
  then show ?case by (simp add: run_events_def run_commands_def)
next
  case (Cons inp inps)
  then obtain due dues' where "dues = due # dues'" "length dues' = length inps"
    by (cases dues) auto
  moreover have "commands_of (ws_commands es) = map (\<lambda>e. bin_to_int_le (ev_payload e)) (filter (\<lambda>e. ev_type e = WStype_BIN) es)" for es
    by (induction es) (simp_all add: ws_commands_def)
  ultimately show ?case
    using Cons.IH by (simp add: call_events_def run_commands_def)
qed

lemma run_loop_target:
  assumes "run_loop d inps b = Inr b'" and "run_commands inps \<noteq> []"
  shows "target_pos (stepper_st b') = last (run_commands inps)"
proof -
  obtain dues where "length dues = length inps"
    "abs_of (stepper_st b') = abs_run (abs_of (stepper_st b)) (run_events inps dues)"
    using run_loop_abs [OF assms(1)] by blast
  then have "abs_target (abs_of (stepper_st b')) = last (run_commands inps)"
    using abs_run_target [of "abs_of (stepper_st b)" "run_events inps dues"] assms(2)
    by (simp add: commands_of_run_events)
  then show ?thesis
    by (simp add: abs_of_def)
qed

subsection \<open>Properties of the firmware\<close>

text \<open>Consecutive phases of an overlapping table share an energised coil,
  in either direction of travel.\<close>

lemma next_step_overlap:
  assumes "overlapping_seq tbl" and "i < length tbl" and "dir = 1 \<or> dir = - 1"
  shows "coil_pattern_of tbl i AND coil_pattern_of tbl (next_step_idx (length tbl) i dir) \<noteq> 0"
proof -
  have ov: "j < length tbl \<Longrightarrow> tbl ! j AND tbl ! ((j + 1) mod length tbl) \<noteq> 0" for j
    using assms(1) by (simp add: overlapping_seq_def list_all_length)
  show ?thesis
  proof (cases "dir = 1")
    case True
    then show ?thesis
      using ov [of i] assms(2) by (auto simp: next_step_idx_def coil_pattern_of_def)
  next
    case False
    then have "dir = - 1" using assms(3) by simp
    moreover have "i = 0 \<Longrightarrow> tbl ! (length tbl - 1) AND tbl ! 0 \<noteq> 0"
      using ov [of "length tbl - 1"] assms(2) by simp
    moreover have "0 < i \<Longrightarrow> tbl ! (i - 1) AND tbl ! i \<noteq> 0"
      using ov [of "i - 1"] assms(2) by simp
    ultimately show ?thesis
      by (auto simp: next_step_idx_def coil_pattern_of_def word_bw_comms(1))
  qed
qed

text \<open>C1. Convergence without overshoot: \<open>k\<close> calls of \<open>loop()\<close> with no
  incoming command or update event, at clock readings spaced at least one step
  interval apart, never trap and reduce the distance between the stepper's
  position and its target by exactly \<open>k\<close> (to 0 at most), the position
  staying between its start and the target.\<close>

theorem loop_converges:
  assumes "spaced d (last_step_time (stepper_st b)) ts"
  shows "\<exists>b'. run_loop d (map idle_input ts) b = Inr b' \<and>
           stepper_dist (stepper_st b') = stepper_dist (stepper_st b) - length ts \<and>
           min (current_pos (stepper_st b)) (target_pos (stepper_st b)) \<le> current_pos (stepper_st b') \<and>
           current_pos (stepper_st b') \<le> max (current_pos (stepper_st b)) (target_pos (stepper_st b))"
proof -
  have "spaced (step_delay (blinds_stepper_cfg d)) (last_step_time (stepper_st b)) ts"
    using assms by simp
  from keep_target_pos_converges [OF this] show ?thesis
    by (simp add: run_loop_idle)
qed

theorem loop_converges_witness:
  "spaced 2 (last_step_time (stepper_st (boot_state\<lparr>stepper_st := set_target_pos stepper_init 3\<rparr>))) [2, 4, 6] \<and>
   (\<exists>b'. run_loop 2 (map idle_input [2, 4, 6]) (boot_state\<lparr>stepper_st := set_target_pos stepper_init 3\<rparr>) = Inr b' \<and>
         stepper_dist (stepper_st b') = 0 \<and> current_pos (stepper_st b') = 3)"
proof -
  let ?b = "boot_state\<lparr>stepper_st := set_target_pos stepper_init 3\<rparr>"
  have sp: "spaced 2 (last_step_time (stepper_st ?b)) [2, 4, 6]"
    by (simp add: set_target_pos_def stepper_init_def)
  have d: "stepper_dist (stepper_st ?b) = 3"
    by (simp add: stepper_dist_def set_target_pos_def stepper_init_def)
  have t: "target_pos (stepper_st ?b) = 3"
    by (simp add: set_target_pos_def)
  from loop_converges [OF sp] obtain b' where
    "run_loop 2 (map idle_input [2, 4, 6]) ?b = Inr b'" "stepper_dist (stepper_st b') = 0"
    using d by auto
  moreover have "target_pos (stepper_st b') = 3"
    using run_loop_idle [of 2 "[2, 4, 6]" ?b] calculation(1) t by auto
  ultimately show ?thesis using sp
    by (auto simp: stepper_dist_def)
qed

text \<open>C2. Ordering within one call of \<open>loop()\<close>: a 4-byte binary command decoded
  by \<open>webSocket.loop()\<close> as the last event of an iteration is already the
  target of that same iteration's \<open>keep_target_pos\<close>, which, when a step is
  due, moves the position one step towards it, whatever the previous target.\<close>

theorem loop_command_same_iteration:
  assumes "ota_events inp = []"
    and "ws_events inp = es @ [e]" and "ev_type e = WStype_BIN"
    and "ev_payload e = payload_buffer frame beyond" and "decode_frame frame = Some v"
    and "v \<noteq> current_pos (stepper_st b)"
    and "d \<le> loop_now inp - last_step_time (stepper_st b)"
  shows "\<exists>b'. blinds_loop d inp b = Inr b' \<and> target_pos (stepper_st b') = v \<and>
           current_pos (stepper_st b') = current_pos (stepper_st b) + sgn (v - current_pos (stepper_st b))"
proof -
  let ?s1 = "ws_dispatch (ws_events inp) (stepper_st b)"
  have "length frame = 4"
    using assms(5) by (simp add: decode_frame_def split: if_splits)
  then have v: "bin_to_int_le (payload_buffer frame beyond) = v"
    using assms(5) decode_frame_bin_to_int_le [of frame beyond] by simp
  have s1: "?s1 = set_target_pos (ws_dispatch es (stepper_st b)) v"
    using assms(2-4) v by (simp add: ws_dispatch_append websocket_event_bin)
  have c1: "current_pos ?s1 = current_pos (stepper_st b)" and t1: "target_pos ?s1 = v"
    and l1: "last_step_time ?s1 = last_step_time (stepper_st b)"
    using s1 ws_dispatch_other_fields [of es "stepper_st b"] by (simp_all add: set_target_pos_def)
  have "keep_target_pos (blinds_stepper_cfg d) (loop_now inp) ?s1 =
          ?s1\<lparr>step_idx := next_step_idx 8 (step_idx ?s1) (step_dir ?s1),
              current_pos := current_pos ?s1 + step_dir ?s1, last_step_time := loop_now inp,
              coil_out := coil_pattern_of halfstep_seq (next_step_idx 8 (step_idx ?s1) (step_dir ?s1))\<rparr>"
    using keep_due [of ?s1 "blinds_stepper_cfg d" "loop_now inp"] assms(6,7) c1 t1 l1 by simp
  then show ?thesis
    using assms(1,6) c1 t1 by (simp add: blinds_loop_Inr step_dir_def sgn_if)
qed

theorem loop_command_same_iteration_witness:
  "\<exists>b'. blinds_loop 2 demo_input demo_boot = Inr b' \<and> target_pos (stepper_st b') = 3 \<and>
        current_pos (stepper_st b') = 1"
proof -
  have d: "decode_frame [0, 0, 0, 3] = Some 3"
    by (simp add: decode_frame_def be_value_def signed32_def)
  have "\<exists>b'. blinds_loop 2 demo_input demo_boot = Inr b' \<and> target_pos (stepper_st b') = 3 \<and>
        current_pos (stepper_st b') = current_pos (stepper_st demo_boot) + sgn (3 - current_pos (stepper_st demo_boot))"
    by (rule loop_command_same_iteration [where es = "[]" and e = demo_cmd and frame = "[0, 0, 0, 3]"
          and beyond = "\<lambda>_. 0"])
       (simp_all add: demo_input_def demo_cmd_def d stepper_init_def)
  then show ?thesis by (simp add: stepper_init_def)
qed

text \<open>C4. In every state of the firmware after \<open>setup()\<close> and any number of
  \<open>loop()\<close> calls, the phase index is within the 8 phases and equals the
  position modulo 8 (the phase wraps forwards and backwards with the position),
  and the coil lines are either all low or show the pattern of that phase.\<close>

theorem reachable_phase_tracks_position:
  assumes "reachable d b"
  shows "step_idx (stepper_st b) < 8 \<and>
         int (step_idx (stepper_st b)) = current_pos (stepper_st b) mod 8 \<and>
         (coil_out (stepper_st b) = 0 \<or>
          coil_out (stepper_st b) = coil_pattern_of halfstep_seq (step_idx (stepper_st b)))"
  using reachable_blinds_inv [OF assms] by (simp add: blinds_inv_def motor_inv_def)

theorem reachable_phase_tracks_position_witness:
  "reachable 2 demo_state \<and> step_idx (stepper_st demo_state) = 1 \<and>
   int (step_idx (stepper_st demo_state)) = current_pos (stepper_st demo_state) mod 8 \<and>
   coil_out (stepper_st demo_state) = coil_pattern_of halfstep_seq (step_idx (stepper_st demo_state))"
  using reachable_phase_tracks_position [OF reachable_demo_state] reachable_demo_state
  by (simp add: coil_pattern_of_def halfstep_seq_def)

text \<open>C5. Rate limit: a call of \<open>loop()\<close> whose clock reading is less than one
  step interval after the last step (in the unsigned wrapping difference)
  changes neither the position, nor the phase, nor the coil lines, nor the time
  of the last step.\<close>

theorem loop_rate_limited:
  assumes "blinds_loop d inp b = Inr b'"
    and "loop_now inp - last_step_time (stepper_st b) < d"
  shows "current_pos (stepper_st b') = current_pos (stepper_st b) \<and>
         step_idx (stepper_st b') = step_idx (stepper_st b) \<and>
         coil_out (stepper_st b') = coil_out (stepper_st b) \<and>
         last_step_time (stepper_st b') = last_step_time (stepper_st b)"
proof -
  let ?s1 = "ws_dispatch (ws_events inp) (stepper_st b)"
  have "keep_target_pos (blinds_stepper_cfg d) (loop_now inp) ?s1 = ?s1"
    using assms(2) ws_dispatch_other_fields [of "ws_events inp" "stepper_st b"]
    by (intro keep_not_due) simp
  then show ?thesis
    using blinds_loop_stepper [OF assms(1)] ws_dispatch_other_fields [of "ws_events inp" "stepper_st b"]
    by simp
qed

theorem loop_rate_limited_witness:
  "blinds_loop 2 (idle_input 3) demo_state = Inr demo_state \<and>
   loop_now (idle_input 3) - last_step_time (stepper_st demo_state) < 2 \<and>
   current_pos (stepper_st demo_state) = 1"
proof -
  have nd: "loop_now (idle_input 3) - last_step_time (stepper_st demo_state) < 2"
    by (simp add: idle_input_def)
  have l: "blinds_loop 2 (idle_input 3) demo_state = Inr demo_state"
    using nd by (simp add: blinds_loop_def idle_input_def keep_not_due demo_state_def)
  from loop_rate_limited [OF l nd] l nd show ?thesis by simp
qed

text \<open>C6. Hold: once the position equals the target, any number of \<open>loop()\<close>
  calls that deliver no binary command leave the whole stepper state unchanged.\<close>

theorem loop_hold_at_target:
  assumes "run_loop d inps b = Inr b'"
    and "current_pos (stepper_st b) = target_pos (stepper_st b)"
    and "\<forall>inp \<in> set inps. \<forall>e \<in> set (ws_events inp). ev_type e \<noteq> WStype_BIN"
  shows "stepper_st b' = stepper_st b"
  using assms
proof (induction inps arbitrary: b)
  case Nil
  then show ?case by simp
next
  case (Cons inp inps)
  from Cons.prems(1) obtain b1 where l: "blinds_loop d inp b = Inr b1" and r: "run_loop d inps b1 = Inr b'"
    by (auto split: sum.splits)
  have "stepper_st b1 = stepper_st b"
    using blinds_loop_stepper [OF l] Cons.prems(2,3) by (simp add: ws_dispatch_no_bin keep_at_target)
  with Cons.IH [OF r] Cons.prems(2,3) show ?case by simp
qed

theorem loop_hold_at_target_witness:
  "run_loop 2 [\<lparr>ota_events = [], ws_events = [demo_cmd\<lparr>ev_type := WStype_TEXT\<rparr>], loop_now = 5\<rparr>]
      demo_boot = Inr demo_boot \<and>
   current_pos (stepper_st demo_boot) = target_pos (stepper_st demo_boot) \<and>
   stepper_st demo_boot = stepper_init"
proof -
  let ?inps = "[\<lparr>ota_events = [], ws_events = [demo_cmd\<lparr>ev_type := WStype_TEXT\<rparr>], loop_now = 5\<rparr>]"
  have nb: "\<forall>inp \<in> set ?inps. \<forall>e \<in> set (ws_events inp). ev_type e \<noteq> WStype_BIN"
    by simp
  have at: "current_pos (stepper_st demo_boot) = target_pos (stepper_st demo_boot)"
    by (simp add: stepper_init_def)
  have r: "run_loop 2 ?inps demo_boot = Inr demo_boot"
    by (simp add: blinds_loop_def websocket_event_not_bin keep_at_target stepper_init_def
                  demo_boot_def boot_state_def)
  from loop_hold_at_target [OF r at nb] r at show ?thesis by simp
qed

text \<open>C7. No overflow: in every reachable state the position and the target lie in
  the range of a C \<open>int\<close>, and so does the position after the next step.\<close>

theorem reachable_no_int_overflow:
  assumes "reachable d b"
  shows "int32_range (current_pos (stepper_st b)) \<and> int32_range (target_pos (stepper_st b)) \<and>
         (current_pos (stepper_st b) \<noteq> target_pos (stepper_st b) \<longrightarrow>
            int32_range (current_pos (stepper_st b) + step_dir (stepper_st b)))"
proof -
  let ?s = "stepper_st b"
  from reachable_blinds_inv [OF assms]
  have c: "int32_range (current_pos ?s)" and t: "int32_range (target_pos ?s)"
    by (simp_all add: blinds_inv_def)
  have "current_pos ?s \<noteq> target_pos ?s \<Longrightarrow> int32_range (current_pos ?s + step_dir ?s)"
    by (rule int32_range_between [OF c t]) (auto simp: step_dir_def)
  with c t show ?thesis by blast
qed

theorem reachable_no_int_overflow_witness:
  "reachable 2 demo_state \<and> int32_range (current_pos (stepper_st demo_state)) \<and>
   int32_range (current_pos (stepper_st demo_state) + step_dir (stepper_st demo_state))"
  using reachable_no_int_overflow [OF reachable_demo_state] reachable_demo_state by simp

text \<open>C8. Coil safety: in every reachable state the coil lines are either all low or
  energise one coil or two adjacent coils, never opposite or three coils.\<close>

theorem reachable_coils_safe:
  assumes "reachable d b"
  shows "coil_out (stepper_st b) = 0 \<or> valid_pattern (coil_out (stepper_st b))"
proof -
  from reachable_blinds_inv [OF assms]
  have "motor_inv (blinds_stepper_cfg d) (stepper_st b)"
    by (simp add: blinds_inv_def)
  then show ?thesis
    using wf_coil_seq_valid [OF wf_halfstep_seq] by (auto simp: motor_inv_def)
qed

theorem reachable_coils_safe_witness:
  "reachable 2 demo_state \<and> valid_pattern (coil_out (stepper_st demo_state))"
proof -
  have "coil_out (stepper_st demo_state) \<noteq> 0" by simp
  then show ?thesis
    using reachable_coils_safe [OF reachable_demo_state] reachable_demo_state by blast
qed

text \<open>C14. The update listener does not touch the motor: a call of \<open>loop()\<close>
  that does not trap leaves the same stepper state as the same call with no
  update events.\<close>

theorem loop_ota_independent:
  assumes "blinds_loop d inp b = Inr b'"
  shows "\<exists>b''. blinds_loop d (inp\<lparr>ota_events := []\<rparr>) b = Inr b'' \<and> stepper_st b'' = stepper_st b'"
  using blinds_loop_stepper [OF assms] by (simp add: blinds_loop_def)

theorem loop_ota_independent_witness:
  "blinds_loop 2 \<lparr>ota_events = [OTA_End], ws_events = [], loop_now = 0\<rparr> demo_boot =
     Inr (demo_boot\<lparr>serial_out := ota_on_end\<rparr>) \<and>
   (\<exists>b''. blinds_loop 2 \<lparr>ota_events = [], ws_events = [], loop_now = 0\<rparr> demo_boot = Inr b'' \<and>
          stepper_st b'' = stepper_init)"
proof -
  have l: "blinds_loop 2 \<lparr>ota_events = [OTA_End], ws_events = [], loop_now = 0\<rparr> demo_boot =
             Inr (demo_boot\<lparr>serial_out := ota_on_end\<rparr>)"
    by (simp add: blinds_loop_def keep_at_target stepper_init_def demo_boot_def boot_state_def)
  from loop_ota_independent [OF l] l show ?thesis by simp
qed

text \<open>C15. A call of \<open>loop()\<close> traps (integer division by zero in the progress
  callback) exactly when the update listener reports progress for an image of
  fewer than 100 bytes.\<close>

theorem loop_traps_iff_small_ota_total:
  "(\<exists>f. blinds_loop d inp b = Inl f) \<longleftrightarrow>
   (\<exists>p t. OTA_Progress p t \<in> set (ota_events inp) \<and> unat t < 100)"
  by (auto simp: blinds_loop_fault ota_run_fault_iff ota_callback_fault_iff)

text \<open>C18. Termination of the association loop of \<open>setup()\<close>: if the WiFi status
  is \<open>WL_CONNECTED\<close> at some poll, the loop returns, at the first such poll.\<close>

theorem wifi_wait_first_connected:
  assumes "status n = WL_CONNECTED"
  shows "\<exists>j. wifi_wait status 0 = Some j \<and> j \<le> n \<and> status j = WL_CONNECTED \<and>
             (\<forall>i < j. status i \<noteq> WL_CONNECTED)"
proof -
  obtain j where j: "wifi_wait status 0 = Some j"
    using wifi_wait_returns [of status n 0] assms by blast
  from wifi_wait_Some [OF j] have "status j = WL_CONNECTED" "\<forall>i < j. status i \<noteq> WL_CONNECTED"
    by simp_all
  moreover from this assms have "j \<le> n"
    by (meson not_le)
  ultimately show ?thesis using j by blast
qed

theorem wifi_wait_first_connected_witness:
  "(\<lambda>k. if k < 3 then WL_DISCONNECTED else WL_CONNECTED) (5 :: nat) = WL_CONNECTED \<and>
   wifi_wait (\<lambda>k. if k < 3 then WL_DISCONNECTED else WL_CONNECTED) 0 = Some 3"
proof -
  let ?st = "\<lambda>k :: nat. if k < 3 then WL_DISCONNECTED else WL_CONNECTED"
  have c: "?st 5 = WL_CONNECTED" by simp
  from wifi_wait_first_connected [where status = ?st and n = 5, OF c] obtain j where
    j: "wifi_wait ?st 0 = Some j" "?st j = WL_CONNECTED" "\<forall>i < j. ?st i \<noteq> WL_CONNECTED"
    by blast
  from j(2) have "3 \<le> j" by (simp split: if_splits)
  moreover from j(3) have "\<not> 3 < j" by auto
  ultimately have "j = 3" by simp
  with j(1) c show ?thesis by simp
qed

text \<open>C19. \<open>setup()\<close> returns exactly when the WiFi status is \<open>WL_CONNECTED\<close> at
  some poll; otherwise it spins forever.\<close>

theorem setup_returns_iff_connected:
  "(\<exists>b. blinds_setup d status = Some b) \<longleftrightarrow> (\<exists>n. status n = WL_CONNECTED)"
proof
  assume "\<exists>b. blinds_setup d status = Some b"
  then obtain j where "wifi_wait status 0 = Some j"
    by (auto simp: blinds_setup_Some)
  then show "\<exists>n. status n = WL_CONNECTED"
    using wifi_wait_Some by blast
next
  assume "\<exists>n. status n = WL_CONNECTED"
  then obtain n where "status n = WL_CONNECTED" by blast
  then obtain j where "wifi_wait status 0 = Some j"
    using wifi_wait_returns [of status n 0] by blast
  then show "\<exists>b. blinds_setup d status = Some b"
    by (simp add: blinds_setup_Some)
qed

text \<open>C20. After \<open>setup()\<close> the stepper is at its reference pose, its four coil
  pins are outputs, the serial port runs at 9600 baud and both servers are
  started, the WebSocket server on port 80.\<close>

theorem setup_initial_state:
  assumes "blinds_setup d status = Some b"
  shows "stepper_st b = stepper_init \<and>
         pin_mode b (in1 (blinds_stepper_cfg d)) = OUTPUT \<and> pin_mode b (in2 (blinds_stepper_cfg d)) = OUTPUT \<and>
         pin_mode b (in3 (blinds_stepper_cfg d)) = OUTPUT \<and> pin_mode b (in4 (blinds_stepper_cfg d)) = OUTPUT \<and>
         serial_baud b = 9600 \<and> ota_started b \<and> ws_started b \<and> ws_port b = 80"
  using assms by (auto simp: blinds_setup_Some boot_state_def blinds_stepper_cfg_def simple28byj48_def)

theorem setup_initial_state_witness:
  "blinds_setup 2 (\<lambda>_. WL_CONNECTED) = Some demo_boot \<and> stepper_st demo_boot = stepper_init \<and>
   pin_mode demo_boot 12 = OUTPUT \<and> ws_port demo_boot = 80"
  using setup_initial_state [OF demo_setup] demo_setup
  by (simp add: blinds_stepper_cfg_def simple28byj48_def)

text \<open>C21. The rate limit survives the wrap-around of the 32-bit clock: with the last
  step at real time \<open>a\<close> and the call at real time \<open>t\<close> less than \<open>2 ^ 32\<close>
  ticks later, a call of \<open>loop()\<close> with no command moves the motor exactly
  when \<open>t - a\<close> is at least the step interval.\<close>

theorem loop_rate_limiter_wraps:
  assumes "blinds_loop d inp b = Inr b'"
    and "\<forall>e \<in> set (ws_events inp). ev_type e \<noteq> WStype_BIN"
    and "current_pos (stepper_st b) \<noteq> target_pos (stepper_st b)"
    and "last_step_time (stepper_st b) = word_of_nat a" and "loop_now inp = word_of_nat t"
    and "a \<le> t" and "t - a < 2 ^ 32"
  shows "current_pos (stepper_st b') \<noteq> current_pos (stepper_st b) \<longleftrightarrow> unat d \<le> t - a"
proof -
  have el: "unat (loop_now inp - last_step_time (stepper_st b)) = t - a"
    using assms(4-7) by (simp add: unat_clock_diff)
  have st: "stepper_st b' = keep_target_pos (blinds_stepper_cfg d) (loop_now inp) (stepper_st b)"
    using blinds_loop_stepper [OF assms(1)] assms(2) by (simp add: ws_dispatch_no_bin)
  show ?thesis
  proof (cases "d \<le> loop_now inp - last_step_time (stepper_st b)")
    case True
    then show ?thesis
      using assms(3) el st current_keep_due [of "stepper_st b" "blinds_stepper_cfg d" "loop_now inp"]
      by (simp add: word_le_nat_alt step_dir_def)
  next
    case False
    then have "loop_now inp - last_step_time (stepper_st b) < d"
      by (simp add: not_le)
    then show ?thesis
      using False el st by (simp add: keep_not_due word_le_nat_alt)
  qed
qed

theorem loop_rate_limiter_wraps_witness:
  "blinds_loop 2 (idle_input (word_of_nat (2 ^ 32 + 1)))
     (demo_state\<lparr>stepper_st := (stepper_st demo_state)\<lparr>last_step_time := word_of_nat (2 ^ 32 - 1)\<rparr>\<rparr>) =
     Inr (demo_state\<lparr>stepper_st := \<lparr>current_pos = 2, target_pos = 3, step_idx = 2,
                        last_step_time = 1, coil_out = 2\<rparr>\<rparr>) \<and>
   (2 :: int) \<noteq> 1 \<and> unat (2 :: clock_t) \<le> (2 ^ 32 + 1) - (2 ^ 32 - 1)"
proof -
  let ?b = "demo_state\<lparr>stepper_st := (stepper_st demo_state)\<lparr>last_step_time := word_of_nat (2 ^ 32 - 1)\<rparr>\<rparr>"
  let ?b' = "demo_state\<lparr>stepper_st := \<lparr>current_pos = 2, target_pos = 3, step_idx = 2,
                        last_step_time = 1, coil_out = 2\<rparr>\<rparr>"
  have n: "next_step_idx 8 (Suc 0) 1 = 2" by (simp add: next_step_idx_def)
  have c: "coil_pattern_of halfstep_seq 2 = 2"
    by (simp add: coil_pattern_of_def halfstep_seq_def)
  have k: "keep_target_pos (blinds_stepper_cfg 2) (word_of_nat (2 ^ 32 + 1)) (stepper_st ?b) =
             stepper_st ?b'"
    by (subst keep_due) (simp_all add: step_dir_def n c)
  have l: "blinds_loop 2 (idle_input (word_of_nat (2 ^ 32 + 1))) ?b = Inr ?b'"
    using k by (simp add: blinds_loop_def idle_input_def demo_state_def)
  have "current_pos (stepper_st ?b') \<noteq> current_pos (stepper_st ?b) \<longleftrightarrow>
        unat (2 :: clock_t) \<le> (2 ^ 32 + 1) - (2 ^ 32 - 1)"
    by (rule loop_rate_limiter_wraps [OF l]) (simp_all add: idle_input_def)
  with l show ?thesis by simp
qed

text \<open>C22. Refinement: one call of \<open>loop()\<close> that does not trap acts on the
  position and the target as the controller specification prescribes: the
  binary commands received during the call, in order, then one tick, due
  exactly when the unsigned time since the last step reaches the step
  interval.\<close>

theorem loop_refines_controller:
  assumes "blinds_loop d inp b = Inr b'"
  shows "abs_of (stepper_st b') =
           abs_run (abs_of (stepper_st b))
             (ws_commands (ws_events inp) @ [Tick (d \<le> loop_now inp - last_step_time (stepper_st b))])"
proof -
  let ?s1 = "ws_dispatch (ws_events inp) (stepper_st b)"
  have "abs_of (stepper_st b') = abs_step (abs_of ?s1) (Tick (d \<le> loop_now inp - last_step_time ?s1))"
    using blinds_loop_stepper [OF assms] by (simp add: keep_abs)
  then show ?thesis
    using ws_dispatch_other_fields [of "ws_events inp" "stepper_st b"] by (simp add: ws_dispatch_abs)
qed

theorem loop_refines_controller_witness:
  "blinds_loop 2 demo_input demo_boot = Inr demo_state \<and>
   abs_of (stepper_st demo_state) = abs_run (abs_of stepper_init) [Command 3, Tick True]"
proof -
  have "abs_of (stepper_st demo_state) =
          abs_run (abs_of (stepper_st demo_boot))
            (ws_commands (ws_events demo_input) @
               [Tick (2 \<le> loop_now demo_input - last_step_time (stepper_st demo_boot))])"
    by (rule loop_refines_controller [OF demo_loop])
  moreover have "ws_commands (ws_events demo_input) = [Command 3]"
    by (simp add: ws_commands_def demo_input_def demo_cmd_def bin_to_int_le_def payload_buffer_def)
  ultimately show ?thesis
    using demo_loop by (simp add: demo_input_def stepper_init_def)
qed

text \<open>C23. Interleaving of commands: when several binary commands arrive during
  one call of \<open>loop()\<close>, the last one is the target afterwards; the earlier
  ones are overwritten without effect on the position.\<close>

theorem loop_last_command_wins:
  assumes "blinds_loop d inp b = Inr b'"
    and "filter (\<lambda>e. ev_type e = WStype_BIN) (ws_events inp) \<noteq> []"
  shows "target_pos (stepper_st b') =
           bin_to_int_le (ev_payload (last (filter (\<lambda>e. ev_type e = WStype_BIN) (ws_events inp))))"
proof -
  let ?s1 = "ws_dispatch (ws_events inp) (stepper_st b)"
  have "abs_target (abs_of ?s1) =
          bin_to_int_le (ev_payload (last (filter (\<lambda>e. ev_type e = WStype_BIN) (ws_events inp))))"
    using assms(2) by (simp add: ws_dispatch_abs ws_commands_def abs_run_commands last_map)
  then show ?thesis
    using blinds_loop_stepper [OF assms(1)] by (simp add: abs_of_def)
qed

theorem loop_last_command_wins_witness:
  "blinds_loop 2 \<lparr>ota_events = [], ws_events = [demo_cmd\<lparr>ev_payload := payload_buffer [0, 0, 0, 9] (\<lambda>_. 0)\<rparr>, demo_cmd],
                 loop_now = 2\<rparr> demo_boot = Inr demo_state \<and>
   target_pos (stepper_st demo_state) = 3"
proof -
  let ?inp = "\<lparr>ota_events = [], ws_events = [demo_cmd\<lparr>ev_payload := payload_buffer [0, 0, 0, 9] (\<lambda>_. 0)\<rparr>, demo_cmd],
                 loop_now = 2\<rparr>"
  have o: "ota_run (ota_events ?inp) (serial_out demo_boot) = Inr (serial_out demo_boot)"
    by simp
  have w: "ws_dispatch (ws_events ?inp) stepper_init = set_target_pos stepper_init 3"
    by (simp add: demo_cmd_def websocket_event_bin set_target_pos_def bin_to_int_le_def
                  payload_buffer_def)
  have l: "blinds_loop 2 ?inp demo_boot = Inr demo_state"
    using blinds_loop_Inr [where d = 2, OF o]
    by (simp only: demo_boot_stepper w) (simp add: demo_keep demo_state_def)
  have "filter (\<lambda>e. ev_type e = WStype_BIN) (ws_events ?inp) \<noteq> []"
    by (simp add: demo_cmd_def)
  from loop_last_command_wins [OF l this] l show ?thesis
    by (simp add: demo_cmd_def bin_to_int_le_def payload_buffer_def)
qed

text \<open>C24. One call of \<open>loop()\<close> moves the motor by at most one step, and never
  skips a phase: when it moves, the new phase index is the neighbour of the old
  one in the direction of travel, the coils carry that phase's pattern, and if
  the coils were driven before, the old and new patterns share an energised
  coil, so the rotor is held through the change.\<close>

theorem loop_step_adjacent:
  assumes "reachable d b" and "blinds_loop d inp b = Inr b'"
  shows "\<bar>current_pos (stepper_st b') - current_pos (stepper_st b)\<bar> \<le> 1 \<and>
         (current_pos (stepper_st b') \<noteq> current_pos (stepper_st b) \<longrightarrow>
            step_idx (stepper_st b') =
              next_step_idx 8 (step_idx (stepper_st b))
                (current_pos (stepper_st b') - current_pos (stepper_st b)) \<and>
            coil_out (stepper_st b') = coil_pattern_of halfstep_seq (step_idx (stepper_st b')) \<and>
            (coil_out (stepper_st b) \<noteq> 0 \<longrightarrow> coil_out (stepper_st b) AND coil_out (stepper_st b') \<noteq> 0))"
proof -
  let ?s = "stepper_st b"
  let ?s1 = "ws_dispatch (ws_events inp) ?s"
  let ?cfg = "blinds_stepper_cfg d"
  have s': "stepper_st b' = keep_target_pos ?cfg (loop_now inp) ?s1"
    using blinds_loop_stepper [OF assms(2)] by simp
  have f: "step_idx ?s1 = step_idx ?s" "coil_out ?s1 = coil_out ?s" "last_step_time ?s1 = last_step_time ?s"
    "current_pos ?s1 = current_pos ?s"
    using ws_dispatch_other_fields [of "ws_events inp" ?s] by simp_all
  have inv: "motor_inv ?cfg ?s"
    using reachable_blinds_inv [OF assms(1)] by (simp add: blinds_inv_def)
  show ?thesis
  proof (cases "current_pos ?s1 \<noteq> target_pos ?s1 \<and> d \<le> loop_now inp - last_step_time ?s1")
    case True
    then have k: "stepper_st b' = ?s1\<lparr>step_idx := next_step_idx 8 (step_idx ?s1) (step_dir ?s1),
                   current_pos := current_pos ?s1 + step_dir ?s1, last_step_time := loop_now inp,
                   coil_out := coil_pattern_of halfstep_seq (next_step_idx 8 (step_idx ?s1) (step_dir ?s1))\<rparr>"
      unfolding s' by (simp add: keep_due)
    have "coil_out ?s \<noteq> 0 \<Longrightarrow> coil_out ?s = coil_pattern_of halfstep_seq (step_idx ?s)"
      using inv by (auto simp: motor_inv_def)
    moreover have "step_idx ?s < 8"
      using inv by (simp add: motor_inv_def)
    ultimately show ?thesis
      using next_step_overlap [OF overlapping_halfstep_seq, of "step_idx ?s" "step_dir ?s1"] step_dir_unit [of ?s1]
      by (auto simp: k f)
  next
    case False
    then have "stepper_st b' = ?s1"
      unfolding s' by (auto simp: keep_at_target keep_not_due not_le)
    then show ?thesis by (simp add: f)
  qed
qed
theorem loop_step_adjacent_witness:
  "reachable 2 demo_boot \<and> blinds_loop 2 demo_input demo_boot = Inr demo_state \<and>
   current_pos (stepper_st demo_state) = 1 \<and> step_idx (stepper_st demo_state) = 1 \<and>
   coil_out (stepper_st demo_state) = 3"
proof -
  have r: "reachable 2 demo_boot"
    by (rule reachable.boot [OF demo_setup])
  from loop_step_adjacent [OF r demo_loop] r demo_loop show ?thesis
    by (simp add: stepper_init_def next_step_idx_def coil_pattern_of_def halfstep_seq_def)
qed

text \<open>C25. Refinement of whole runs: a run of calls of \<open>loop()\<close> that does not
  trap acts on the position and the target as the controller specification
  does on the run's events: per call, in order, the call's binary commands and
  one tick, for some choice of the due flags.\<close>

theorem run_loop_refines_controller:
  assumes "run_loop d inps b = Inr b'"
  shows "\<exists>dues. length dues = length inps \<and>
           abs_of (stepper_st b') = abs_run (abs_of (stepper_st b)) (run_events inps dues)"
  by (rule run_loop_abs [OF assms])

theorem run_loop_refines_controller_witness:
  "run_loop 2 [demo_input] demo_boot = Inr demo_state \<and>
   (\<exists>dues. length dues = 1 \<and>
      abs_of (stepper_st demo_state) = abs_run (abs_of stepper_init) (run_events [demo_input] dues))"
proof -
  have r: "run_loop 2 [demo_input] demo_boot = Inr demo_state"
    by (simp add: demo_loop)
  from run_loop_refines_controller [OF r] r show ?thesis
    by simp
qed

text \<open>C26. Across a whole run, the target is the last binary command received,
  whatever call it arrived in; earlier ones are overwritten.\<close>

theorem run_last_command_wins:
  assumes "run_loop d inps b = Inr b'" and "run_commands inps \<noteq> []"
  shows "target_pos (stepper_st b') = last (run_commands inps)"
  by (rule run_loop_target [OF assms])

theorem run_last_command_wins_witness:
  "run_loop 2 [demo_input] demo_boot = Inr demo_state \<and> run_commands [demo_input] = [3] \<and>
   target_pos (stepper_st demo_state) = 3"
proof -
  have r: "run_loop 2 [demo_input] demo_boot = Inr demo_state"
    by (simp add: demo_loop)
  have c: "run_commands [demo_input] = [3]"
    by (simp add: run_commands_def demo_input_def demo_cmd_def bin_to_int_le_def payload_buffer_def)
  from run_last_command_wins [OF r] r c show ?thesis
    by simp
qed

text \<open>C27. Convergence to the last command: after a run that received commands,
  enough further calls of \<open>loop()\<close> without events, spaced at least one step
  interval apart, bring the motor to the last commanded position, where it
  stays targeted.\<close>

theorem loop_converges_to_last_command:
  assumes "run_loop d inps b = Inr b1" and "run_commands inps \<noteq> []"
    and "spaced d (last_step_time (stepper_st b1)) ts"
    and "nat \<bar>last (run_commands inps) - current_pos (stepper_st b1)\<bar> \<le> length ts"
  shows "\<exists>b'. run_loop d (inps @ map idle_input ts) b = Inr b' \<and>
           current_pos (stepper_st b') = last (run_commands inps) \<and>
           target_pos (stepper_st b') = last (run_commands inps)"
proof -
  let ?v = "last (run_commands inps)"
  let ?cfg = "blinds_stepper_cfg d"
  let ?s = "run_keep ?cfg ts (stepper_st b1)"
  have t: "target_pos (stepper_st b1) = ?v"
    by (rule run_loop_target [OF assms(1,2)])
  have "spaced (step_delay ?cfg) (last_step_time (stepper_st b1)) ts"
    using assms(3) by simp
  then have "stepper_dist ?s = stepper_dist (stepper_st b1) - length ts"
    by (simp add: keep_target_pos_converges)
  then have "stepper_dist ?s = 0"
    using assms(4) t by (simp add: stepper_dist_def)
  moreover have "target_pos ?s = ?v"
    using t by (simp add: run_keep_target_unchanged)
  ultimately have "current_pos ?s = ?v \<and> target_pos ?s = ?v"
    by (simp add: stepper_dist_def)
  then show ?thesis
    using assms(1) by (simp add: run_loop_append run_loop_idle)
qed

theorem loop_converges_to_last_command_witness:
  "run_loop 2 [demo_input] demo_boot = Inr demo_state \<and> run_commands [demo_input] = [3] \<and>
   spaced 2 (last_step_time (stepper_st demo_state)) [4, 6] \<and>
   (\<exists>b'. run_loop 2 ([demo_input] @ map idle_input [4, 6]) demo_boot = Inr b' \<and>
         current_pos (stepper_st b') = 3)"
proof -
  have r: "run_loop 2 [demo_input] demo_boot = Inr demo_state"
    by (simp add: demo_loop)
  have c: "run_commands [demo_input] = [3]"
    by (simp add: run_commands_def demo_input_def demo_cmd_def bin_to_int_le_def payload_buffer_def)
  have sp: "spaced 2 (last_step_time (stepper_st demo_state)) [4, 6]"
    by simp
  have "nat \<bar>last (run_commands [demo_input]) - current_pos (stepper_st demo_state)\<bar> \<le> length [4, 6 :: clock_t]"
    by (simp add: c)
  from loop_converges_to_last_command [OF r _ sp this] r c sp show ?thesis
    by auto
qed

end
